(* ===== verification/Prelude.thy ===== *)
theory Prelude
  imports Main
begin

text \<open>
  Shared vocabulary of the development: the names of the model's identifier types,
  the theorem collections the component theories fill, and the generic facts about
  allocation tables (maps from numeric identifiers, such as heap addresses, promise
  ids and timer ids, each with a counter for the next fresh one) that the component
  proofs use.
\<close>

section \<open>Identifier types\<close>

type_synonym key = string
  \<comment> \<open>a cache key: the \<open>key: string\<close> parameter of every Store method\<close>
type_synonym time = int
  \<comment> \<open>milliseconds, as returned by \<open>Date.now()\<close>\<close>
type_synonym addr = nat
  \<comment> \<open>identity of a JavaScript entry object\<close>
type_synonym pid = nat
  \<comment> \<open>identity of a promise\<close>
type_synonym tid = nat
  \<comment> \<open>a \<open>NodeJS.Timeout\<close> handle\<close>
type_synonym jid = nat
  \<comment> \<open>an outstanding call of a loader whose promise has not settled\<close>
type_synonym lid = nat
  \<comment> \<open>identity of a loader function \<open>() => Promise<T> | T\<close>\<close>

named_theorems store_defs "definitions of the Store operations, unfolded by the component proofs"
named_theorems wf_intros "introduction facts of the well-formedness invariant"

section \<open>Allocation tables\<close>

text \<open>
  A table is fresh above \<open>n\<close> when no identifier at or above \<open>n\<close> is in use: the
  next allocation at \<open>n\<close> never overwrites an object that still exists.
\<close>

definition fresh_above :: "(nat \<Rightarrow> 'a option) \<Rightarrow> nat \<Rightarrow> bool" where
  "fresh_above m n \<longleftrightarrow> (\<forall>i. n \<le> i \<longrightarrow> m i = None)"

lemma fresh_above_empty [simp, intro]: "fresh_above Map.empty n"
  by (simp add: fresh_above_def)

lemma fresh_above_at [simp]: "fresh_above m n \<Longrightarrow> m n = None"
  by (simp add: fresh_above_def)

lemma fresh_above_dom: "fresh_above m n \<Longrightarrow> m i = Some x \<Longrightarrow> i < n"
  by (metis fresh_above_def not_le option.distinct(1))

lemma fresh_above_alloc [intro]: "fresh_above m n \<Longrightarrow> fresh_above (m(n \<mapsto> x)) (Suc n)"
  by (simp add: fresh_above_def)

lemma fresh_above_Suc [intro]: "fresh_above m n \<Longrightarrow> fresh_above m (Suc n)"
  by (simp add: fresh_above_def)

lemma fresh_above_update [intro]:
  "fresh_above m n \<Longrightarrow> m i \<noteq> None \<Longrightarrow> fresh_above (m(i \<mapsto> x)) n"
  by (auto simp: fresh_above_def)

lemma fresh_above_remove [intro]: "fresh_above m n \<Longrightarrow> fresh_above (m(i := None)) n"
  by (simp add: fresh_above_def)

lemmas fresh_above_facts [wf_intros] =
  fresh_above_alloc fresh_above_Suc fresh_above_update fresh_above_remove

section \<open>Lists used as logs\<close>

lemma count_list_snoc [simp]:
  "count_list (xs @ [x]) y = count_list xs y + (if x = y then 1 else 0)"
  by (induction xs) auto

end
