(* ===== verification/Js_Values.thy ===== *)
theory Js_Values
  imports Prelude
begin

text \<open>
  The JavaScript values the Store keeps, and the two pieces of JavaScript semantics its
  code relies on: \<open>Array.isArray\<close> (in \<open>query\<close>) and the truthiness test of an optional
  number (\<open>ttlMs ? ... : ...\<close> in \<open>set\<close>, \<open>if (ttlMs)\<close> in \<open>setLoader\<close>).
  \<open>Undefined\<close> is a value of its own: the code tests \<open>entry?.value !== undefined\<close>, so
  an entry whose value is \<open>undefined\<close> counts as holding no value.
  Numbers are modelled as integers (milliseconds and the payloads of the examples);
  \<open>NaN\<close> and fractional numbers are not modelled.
\<close>

datatype jsval =
    Undefined
  | Null
  | Bool bool
  | Num int
  | Str string
  | Arr "jsval list"

fun is_array :: "jsval \<Rightarrow> bool" where
  "is_array (Arr _) = True"
| "is_array _ = False"

text \<open>
  An optional number argument (\<open>ttlMs?: number\<close>) is \<open>None\<close> when the caller left it
  out (\<open>undefined\<close>); it is truthy exactly when it is given and not \<open>0\<close>.
\<close>

fun num_truthy :: "int option \<Rightarrow> bool" where
  "num_truthy None = False"
| "num_truthy (Some n) = (n \<noteq> 0)"

lemma num_truthy_iff: "num_truthy t \<longleftrightarrow> (\<exists>n. t = Some n \<and> n \<noteq> 0)"
  by (cases t) auto

end
