(* ===== verification/Store_State.thy ===== *)
theory Store_State
  imports Js_Values
begin

text \<open>
  The state of a \<open>Store\<close> (src/src/Store.ts) and its synchronous operations that do not
  start a load: \<open>set\<close>, \<open>delete\<close>, \<open>query\<close> and \<open>isExpired\<close>.

  The class keeps one field, \<open>data: Map<string, Entry>\<close>. Its entries are JavaScript
  objects: \<open>set\<close> and \<open>setLoader\<close> replace a key's entry by a fresh object literal
  (\<open>{...this.data.get(key), ...}\<close>), while the continuation of a load started by \<open>get\<close>
  keeps a reference to the object it started from (\<open>entry!.loading = undefined\<close>). The
  identity of entry objects is therefore part of the model: \<open>data\<close> maps a key to an
  address and \<open>heap\<close> maps addresses to entries. The rest of the record is the part of
  the Node.js runtime the Store touches: its promises, its interval timers, the loader
  calls whose promise has not settled, the clock \<open>Date.now()\<close>, the events it emits and
  the promise rejections nobody handles.
\<close>

section \<open>Data\<close>

datatype err =
    NoLoaderAvailable key
      \<comment> \<open>\<open>new Error(`No loader available for key "${key}"`)\<close>\<close>
  | Thrown nat
      \<comment> \<open>whatever a loader throws or rejects with\<close>

datatype pstate = Pending | Fulfilled jsval | Rejected err

text \<open>
  A loader call whose result has not arrived yet, with what its continuation captured:
  \<open>GetLoad k a p l\<close> is the \<open>.then/.catch\<close> chain of \<open>get\<close> (Store.ts lines 41--50),
  holding the key, the entry object \<open>a\<close> it will write \<open>loading = undefined\<close> into, the
  promise \<open>p\<close> stored in \<open>entry.loading\<close> and the loader called; \<open>RefreshLoad k l\<close>
  is the \<open>refresh\<close> closure of \<open>setAutoRefresh\<close> suspended at \<open>await loader()\<close>.
\<close>

datatype job =
    GetLoad key addr pid lid
  | RefreshLoad key lid

text \<open>The events of the \<open>EventEmitter\<close> the Store extends.\<close>

datatype event =
    Update key jsval jsval      \<comment> \<open>\<open>emit("update", key, value, old)\<close>\<close>
  | UpdateKey key jsval jsval   \<comment> \<open>\<open>emit(`update:${key}`, value, old)\<close>\<close>
  | Deleted key                 \<comment> \<open>\<open>emit("delete", key)\<close>\<close>

text \<open>\<open>interface Entry\<close> (Store.ts lines 5--11); an absent optional field is \<open>None\<close>,
  an absent \<open>value\<close> (field \<open>val\<close>) is \<open>Undefined\<close>.\<close>

record entry =
  val :: jsval
  loader :: "lid option"
  expiresAt :: "time option"
  loading :: "pid option"
  refreshInterval :: "tid option"

definition empty_entry :: entry where
  "empty_entry =
     \<lparr>val = Undefined, loader = None, expiresAt = None, loading = None, refreshInterval = None\<rparr>"

record store =
  data :: "key \<Rightarrow> addr option"
  heap :: "addr \<Rightarrow> entry option"
  next_addr :: addr
  promises :: "pid \<Rightarrow> pstate option"
  next_pid :: pid
  intervals :: "tid \<Rightarrow> (key \<times> lid \<times> int) option"
  next_tid :: tid
  jobs :: "jid \<Rightarrow> job option"
  next_jid :: jid
  invoked :: "(key \<times> lid) list"
  clock :: time
  emitted :: "event list"
  unhandled :: "err list"
  loader_throws :: "lid \<Rightarrow> err option"

text \<open>\<open>new Store()\<close> at time \<open>t0\<close>: an empty map and an idle runtime.\<close>

definition init_store :: "time \<Rightarrow> (lid \<Rightarrow> err option) \<Rightarrow> store" where
  "init_store t0 thr =
     \<lparr>data = Map.empty, heap = Map.empty, next_addr = 0, promises = Map.empty, next_pid = 0,
      intervals = Map.empty, next_tid = 0, jobs = Map.empty, next_jid = 0, invoked = [],
      clock = t0, emitted = [], unhandled = [], loader_throws = thr\<rparr>"

section \<open>Runtime primitives\<close>

text \<open>\<open>this.data.get(key)\<close>, with the address of the object it returns.\<close>

definition entry_at :: "store \<Rightarrow> key \<Rightarrow> (addr \<times> entry) option" where
  "entry_at s k =
     (case data s k of
        None \<Rightarrow> None
      | Some a \<Rightarrow> (case heap s a of None \<Rightarrow> None | Some e \<Rightarrow> Some (a, e)))"

definition current :: "store \<Rightarrow> key \<Rightarrow> entry option" where
  "current s k = map_option snd (entry_at s k)"

text \<open>\<open>{...x}\<close> for \<open>x = this.data.get(key)\<close>: spreading \<open>undefined\<close> gives \<open>{}\<close>.\<close>

definition spread :: "entry option \<Rightarrow> entry" where
  "spread eo = (case eo of None \<Rightarrow> empty_entry | Some e \<Rightarrow> e)"

text \<open>\<open>this.data.set(key, {...})\<close>: a fresh object, stored under the key.\<close>

definition put_entry :: "key \<Rightarrow> entry \<Rightarrow> store \<Rightarrow> store" where
  "put_entry k e s =
     s\<lparr>heap := (heap s)(next_addr s \<mapsto> e), next_addr := Suc (next_addr s),
       data := (data s)(k \<mapsto> next_addr s)\<rparr>"

definition emit :: "event \<Rightarrow> store \<Rightarrow> store" where
  "emit ev s = s\<lparr>emitted := emitted s @ [ev]\<rparr>"

definition clearInterval :: "tid \<Rightarrow> store \<Rightarrow> store" where
  "clearInterval t s = s\<lparr>intervals := (intervals s)(t := None)\<rparr>"

text \<open>\<open>if (entry?.refreshInterval) clearInterval(entry.refreshInterval)\<close>, shared by
  \<open>delete\<close> (line 109) and \<open>setLoader\<close> (line 73).\<close>

definition clear_refresh :: "entry option \<Rightarrow> store \<Rightarrow> store" where
  "clear_refresh eo s =
     (case eo of
        Some e \<Rightarrow> (case refreshInterval e of Some t \<Rightarrow> clearInterval t s | None \<Rightarrow> s)
      | None \<Rightarrow> s)"

text \<open>\<open>ttlMs ? Date.now() + ttlMs : undefined\<close>\<close>

fun ttl_deadline :: "time \<Rightarrow> int option \<Rightarrow> time option" where
  "ttl_deadline now None = None"
| "ttl_deadline now (Some n) = (if n \<noteq> 0 then Some (now + n) else None)"

section \<open>Operations\<close>

text \<open>\<open>private isExpired(entry)\<close> (Store.ts lines 114--116).\<close>

definition isExpired :: "store \<Rightarrow> entry \<Rightarrow> bool" where
  "isExpired s e = (case expiresAt e of None \<Rightarrow> False | Some t \<Rightarrow> clock s > t)"

text \<open>\<open>set(key, value, ttlMs?)\<close> (Store.ts lines 56--67).\<close>

definition store_set :: "key \<Rightarrow> jsval \<Rightarrow> int option \<Rightarrow> store \<Rightarrow> store" where
  "store_set k v ttl s =
     (let old = (case current s k of None \<Rightarrow> Undefined | Some e \<Rightarrow> val e);
          s1 = put_entry k ((spread (current s k))
                 \<lparr>val := v, expiresAt := ttl_deadline (clock s) ttl\<rparr>) s;
          s2 = emit (Update k v old) s1
      in emit (UpdateKey k v old) s2)"

text \<open>The object \<open>set\<close> writes for the key.\<close>

definition set_entry :: "store \<Rightarrow> key \<Rightarrow> jsval \<Rightarrow> int option \<Rightarrow> entry" where
  "set_entry s k v ttl = (spread (current s k))\<lparr>val := v, expiresAt := ttl_deadline (clock s) ttl\<rparr>"

text \<open>\<open>delete(key)\<close> (Store.ts lines 107--112).\<close>

definition store_delete :: "key \<Rightarrow> store \<Rightarrow> store" where
  "store_delete k s =
     (let s1 = clear_refresh (current s k) s;
          removed = (data s1 k \<noteq> None)
      in if removed then emit (Deleted k) (s1\<lparr>data := (data s1)(k := None)\<rparr>) else s1)"

text \<open>\<open>query(key, fn)\<close> (Store.ts lines 101--104).\<close>

definition store_query :: "key \<Rightarrow> (jsval \<Rightarrow> bool) \<Rightarrow> store \<Rightarrow> jsval list" where
  "store_query k f s =
     (let v = (case current s k of None \<Rightarrow> Undefined | Some e \<Rightarrow> val e)
      in case v of Arr xs \<Rightarrow> filter f xs | _ \<Rightarrow> [])"

declare empty_entry_def [store_defs] entry_at_def [store_defs] current_def [store_defs]
  spread_def [store_defs] put_entry_def [store_defs] emit_def [store_defs]
  clearInterval_def [store_defs] clear_refresh_def [store_defs] isExpired_def [store_defs]


section \<open>Well-formed entry table\<close>

text \<open>
  Every key of \<open>data\<close> names a live object and no object lives at or above the
  next free address: then allocating a new object never touches an entry in use.
\<close>

definition addr_ok :: "store \<Rightarrow> bool" where
  "addr_ok s \<longleftrightarrow>
     fresh_above (heap s) (next_addr s) \<and> (\<forall>k a. data s k = Some a \<longrightarrow> heap s a \<noteq> None)"

section \<open>Lemmas\<close>

subsection \<open>Frame facts of the primitives\<close>

lemma put_entry_fields [simp]:
  "clock (put_entry k e s) = clock s"
  "intervals (put_entry k e s) = intervals s"
  "next_tid (put_entry k e s) = next_tid s"
  "promises (put_entry k e s) = promises s"
  "next_pid (put_entry k e s) = next_pid s"
  "jobs (put_entry k e s) = jobs s"
  "next_jid (put_entry k e s) = next_jid s"
  "invoked (put_entry k e s) = invoked s"
  "emitted (put_entry k e s) = emitted s"
  "unhandled (put_entry k e s) = unhandled s"
  "loader_throws (put_entry k e s) = loader_throws s"
  "next_addr (put_entry k e s) = Suc (next_addr s)"
  "data (put_entry k e s) = (data s)(k \<mapsto> next_addr s)"
  "heap (put_entry k e s) = (heap s)(next_addr s \<mapsto> e)"
  by (simp_all add: put_entry_def)

lemma empty_entry_fields [simp]:
  "val empty_entry = Undefined" "loader empty_entry = None" "expiresAt empty_entry = None"
  "loading empty_entry = None" "refreshInterval empty_entry = None"
  by (simp_all add: empty_entry_def)

lemma emit_fields [simp]:
  "data (emit ev s) = data s" "heap (emit ev s) = heap s" "next_addr (emit ev s) = next_addr s"
  "clock (emit ev s) = clock s" "intervals (emit ev s) = intervals s"
  "next_tid (emit ev s) = next_tid s" "promises (emit ev s) = promises s"
  "next_pid (emit ev s) = next_pid s" "jobs (emit ev s) = jobs s"
  "next_jid (emit ev s) = next_jid s" "invoked (emit ev s) = invoked s"
  "unhandled (emit ev s) = unhandled s" "emitted (emit ev s) = emitted s @ [ev]"
  "loader_throws (emit ev s) = loader_throws s"
  by (simp_all add: emit_def)

lemma clear_refresh_fields [simp]:
  "data (clear_refresh eo s) = data s" "heap (clear_refresh eo s) = heap s"
  "next_addr (clear_refresh eo s) = next_addr s" "clock (clear_refresh eo s) = clock s"
  "next_tid (clear_refresh eo s) = next_tid s" "promises (clear_refresh eo s) = promises s"
  "next_pid (clear_refresh eo s) = next_pid s" "jobs (clear_refresh eo s) = jobs s"
  "next_jid (clear_refresh eo s) = next_jid s" "invoked (clear_refresh eo s) = invoked s"
  "emitted (clear_refresh eo s) = emitted s" "unhandled (clear_refresh eo s) = unhandled s"
  "loader_throws (clear_refresh eo s) = loader_throws s"
  by (simp_all add: clear_refresh_def clearInterval_def split: option.splits)

lemma intervals_clear_refresh:
  "intervals (clear_refresh eo s) =
     (case eo of Some e \<Rightarrow> (case refreshInterval e of Some t \<Rightarrow> (intervals s)(t := None)
                                                  | None \<Rightarrow> intervals s)
               | None \<Rightarrow> intervals s)"
  by (simp add: clear_refresh_def clearInterval_def split: option.splits)

lemma entry_at_frame:
  "data s' = data s \<Longrightarrow> heap s' = heap s \<Longrightarrow> entry_at s' = entry_at s"
  by (rule ext) (simp add: entry_at_def split: option.split)

lemma current_frame:
  "data s' = data s \<Longrightarrow> heap s' = heap s \<Longrightarrow> current s' = current s"
  unfolding current_def by (drule (1) entry_at_frame) simp

lemma entry_at_clear_refresh [simp]: "entry_at (clear_refresh eo s) = entry_at s"
  by (rule entry_at_frame) simp_all

lemma current_clear_refresh [simp]: "current (clear_refresh eo s) = current s"
  by (rule current_frame) simp_all

lemma entry_at_emit [simp]: "entry_at (emit ev s) = entry_at s"
  by (rule entry_at_frame) simp_all

lemma current_emit [simp]: "current (emit ev s) = current s"
  by (rule current_frame) simp_all

lemma isExpired_frame:
  "clock s' = clock s \<Longrightarrow> isExpired s' e = isExpired s e"
  by (simp add: isExpired_def split: option.split)

subsection \<open>The entry table\<close>

lemma addr_ok_fresh: "addr_ok s \<Longrightarrow> data s k = Some a \<Longrightarrow> a < next_addr s"
  unfolding addr_ok_def by (metis fresh_above_dom not_None_eq)

lemma addr_ok_init: "addr_ok (init_store t0 thr)"
  by (simp add: addr_ok_def init_store_def)

lemma entry_at_put_entry:
  assumes "addr_ok s"
  shows "entry_at (put_entry k e s) k' =
           (if k' = k then Some (next_addr s, e) else entry_at s k')"
proof (cases "k' = k")
  case False
  have "data s k' = Some a \<Longrightarrow> a \<noteq> next_addr s" for a
    using addr_ok_fresh [OF assms] by fastforce
  with False show ?thesis
    by (auto simp: entry_at_def put_entry_def split: option.splits)
qed (simp add: entry_at_def put_entry_def)

lemma current_put_entry:
  "addr_ok s \<Longrightarrow> current (put_entry k e s) k' = (if k' = k then Some e else current s k')"
  by (simp add: current_def entry_at_put_entry)

lemma addr_ok_put_entry [wf_intros]: "addr_ok s \<Longrightarrow> addr_ok (put_entry k e s)"
  by (auto simp: addr_ok_def put_entry_def)

lemma addr_ok_emit [wf_intros]: "addr_ok s \<Longrightarrow> addr_ok (emit ev s)"
  by (simp add: addr_ok_def)

lemma addr_ok_clear_refresh [wf_intros]: "addr_ok s \<Longrightarrow> addr_ok (clear_refresh eo s)"
  by (simp add: addr_ok_def)

lemma current_Some_entry_at: "current s k = Some e \<longleftrightarrow> (\<exists>a. entry_at s k = Some (a, e))"
  by (auto simp: current_def)

subsection \<open>\<open>set\<close>\<close>

lemma store_set_eq:
  "store_set k v ttl s =
     emit (UpdateKey k v (case current s k of None \<Rightarrow> Undefined | Some e \<Rightarrow> val e))
       (emit (Update k v (case current s k of None \<Rightarrow> Undefined | Some e \<Rightarrow> val e))
         (put_entry k (set_entry s k v ttl) s))"
  by (simp add: store_set_def set_entry_def Let_def)

lemma store_set_fields [simp]:
  "clock (store_set k v ttl s) = clock s" "intervals (store_set k v ttl s) = intervals s"
  "next_tid (store_set k v ttl s) = next_tid s" "promises (store_set k v ttl s) = promises s"
  "next_pid (store_set k v ttl s) = next_pid s" "jobs (store_set k v ttl s) = jobs s"
  "next_jid (store_set k v ttl s) = next_jid s" "invoked (store_set k v ttl s) = invoked s"
  "unhandled (store_set k v ttl s) = unhandled s"
  "loader_throws (store_set k v ttl s) = loader_throws s"
  "next_addr (store_set k v ttl s) = Suc (next_addr s)"
  by (simp_all add: store_set_eq)

lemma current_store_set:
  "addr_ok s \<Longrightarrow>
   current (store_set k v ttl s) k' = (if k' = k then Some (set_entry s k v ttl) else current s k')"
  by (simp add: store_set_eq current_put_entry)

lemma addr_ok_store_set [wf_intros]: "addr_ok s \<Longrightarrow> addr_ok (store_set k v ttl s)"
  by (simp add: store_set_eq addr_ok_emit addr_ok_put_entry)

subsection \<open>\<open>delete\<close>\<close>

lemma store_delete_eq:
  "store_delete k s =
     (if data s k \<noteq> None
      then emit (Deleted k) ((clear_refresh (current s k) s)\<lparr>data := (data s)(k := None)\<rparr>)
      else clear_refresh (current s k) s)"
  by (simp add: store_delete_def Let_def)

lemma store_delete_fields [simp]:
  "clock (store_delete k s) = clock s" "heap (store_delete k s) = heap s"
  "next_addr (store_delete k s) = next_addr s" "next_tid (store_delete k s) = next_tid s"
  "promises (store_delete k s) = promises s" "next_pid (store_delete k s) = next_pid s"
  "jobs (store_delete k s) = jobs s" "next_jid (store_delete k s) = next_jid s"
  "invoked (store_delete k s) = invoked s" "unhandled (store_delete k s) = unhandled s"
  "loader_throws (store_delete k s) = loader_throws s"
  "data (store_delete k s) = (data s)(k := None)"
  by (simp_all add: store_delete_eq fun_upd_idem)

lemma current_store_delete:
  "current (store_delete k s) k' = (if k' = k then None else current s k')"
  by (simp add: current_def entry_at_def split: option.split)

lemma addr_ok_store_delete [wf_intros]: "addr_ok s \<Longrightarrow> addr_ok (store_delete k s)"
  by (simp add: addr_ok_def)

lemma intervals_store_delete:
  "intervals (store_delete k s) = intervals (clear_refresh (current s k) s)"
  by (simp add: store_delete_eq)

end
