(* ===== verification/Store_Ops.thy ===== *)
theory Store_Ops
  imports Store_State
begin

text \<open>
  The operations of \<open>Store\<close> (src/src/Store.ts) that call loaders: \<open>get\<close>, the
  continuation of the load it starts, \<open>setLoader\<close>, \<open>setAutoRefresh\<close> and the
  interval timer's \<open>refresh\<close>; and the steps of the event loop around them, as a
  datatype of operations with a step function.

  Node.js runs one callback at a time, so every synchronous stretch of code between two
  suspension points is one atomic step of the model. A loader call becomes a pending
  job; the environment settles it later (\<open>Complete\<close>), and only then does the code
  after the \<open>await\<close> or in the \<open>.then/.catch\<close> run.
\<close>

section \<open>Loads\<close>

text \<open>
  What the promise returned by \<open>get\<close> settles with: a cached value, an error thrown
  before any suspension, or the same outcome as an in-flight promise.
\<close>

datatype outcome = Value jsval | Fail err | Await pid

text \<open>How a loader's promise settles.\<close>

datatype result = Resolves jsval | Rejects err

text \<open>Calling a loader: the call is logged and its continuation waits as a job.\<close>

definition call_loader :: "job \<Rightarrow> key \<Rightarrow> lid \<Rightarrow> store \<Rightarrow> store" where
  "call_loader jb k l s =
     s\<lparr>jobs := (jobs s)(next_jid s \<mapsto> jb), next_jid := Suc (next_jid s),
       invoked := invoked s @ [(k, l)]\<rparr>"

text \<open>\<open>loader ?? entry.loader\<close> (line 38): the explicit loader wins.\<close>

definition resolve_loader :: "lid option \<Rightarrow> entry \<Rightarrow> lid option" where
  "resolve_loader lo e = (case lo of Some l \<Rightarrow> Some l | None \<Rightarrow> loader e)"

text \<open>
  Lines 35--52 of \<open>get\<close>, for the entry object at address \<open>a\<close>: join the load in
  flight, or resolve the loader (\<open>loader ?? entry.loader\<close>), fail when there is none,
  call it, and store the promise of its \<open>.then/.catch\<close> chain in \<open>entry.loading\<close>
  (a write into the object itself). A loader that throws synchronously
  (\<open>loader_throws\<close>) throws out of \<open>loadFn()\<close> before \<open>Promise.resolve\<close>: \<open>get\<close>
  rejects with that error and \<open>entry.loading\<close> is never written.
\<close>

definition start_load :: "key \<Rightarrow> lid option \<Rightarrow> addr \<Rightarrow> entry \<Rightarrow> store \<Rightarrow> outcome \<times> store" where
  "start_load k lo a e s =
     (case loading e of
        Some p \<Rightarrow> (Await p, s)
      | None \<Rightarrow>
          (case resolve_loader lo e of
             None \<Rightarrow> (Fail (NoLoaderAvailable k), s)
           | Some l \<Rightarrow>
               (case loader_throws s l of
                  Some err \<Rightarrow> (Fail err, s\<lparr>invoked := invoked s @ [(k, l)]\<rparr>)
                | None \<Rightarrow>
                    (let p = next_pid s;
                         s1 = call_loader (GetLoad k a p l) k l s
                     in (Await p,
                         s1\<lparr>promises := (promises s1)(p \<mapsto> Pending), next_pid := Suc p,
                            heap := (heap s1)(a \<mapsto> e\<lparr>loading := Some p\<rparr>)\<rparr>)))))"

text \<open>
  \<open>get(key, loader?)\<close> (Store.ts lines 17--53). An expired entry is deleted
  (\<open>this.delete(key)\<close>, which cancels its timer and emits \<open>delete\<close>) and treated as
  absent; a missing entry is created as \<open>{}\<close> and registered before loading.
\<close>

definition store_get :: "key \<Rightarrow> lid option \<Rightarrow> store \<Rightarrow> outcome \<times> store" where
  "store_get k lo s =
     (case entry_at s k of
        Some (a, e) \<Rightarrow>
          if isExpired s e
          then (let s1 = store_delete k s
                in start_load k lo (next_addr s1) empty_entry (put_entry k empty_entry s1))
          else if val e \<noteq> Undefined then (Value (val e), s)
          else start_load k lo a e s
      | None \<Rightarrow> start_load k lo (next_addr s) empty_entry (put_entry k empty_entry s))"

text \<open>\<open>entry!.loading = undefined\<close>, into the object the continuation captured.\<close>

definition clear_loading :: "addr \<Rightarrow> store \<Rightarrow> store" where
  "clear_loading a s =
     (case heap s a of
        None \<Rightarrow> s
      | Some e \<Rightarrow> s\<lparr>heap := (heap s)(a \<mapsto> e\<lparr>loading := None\<rparr>)\<rparr>)"

definition settle :: "pid \<Rightarrow> pstate \<Rightarrow> store \<Rightarrow> store" where
  "settle p st s = s\<lparr>promises := (promises s)(p \<mapsto> st)\<rparr>"

text \<open>
  The code after a loader's promise settles. For \<open>get\<close> (lines 42--50): on success
  \<open>this.set(key, value)\<close> (no TTL), then \<open>entry!.loading = undefined\<close>, then the
  promise fulfils; on failure \<open>entry!.loading = undefined\<close> and the promise rejects.
  For \<open>refresh\<close> (lines 85--88): \<open>this.set(key, value)\<close> on success; a failure
  rejects the promise of \<open>refresh()\<close>, which no code handles.
\<close>

fun run_job :: "job \<Rightarrow> result \<Rightarrow> store \<Rightarrow> store" where
  "run_job (GetLoad k a p l) (Resolves v) s =
     settle p (Fulfilled v) (clear_loading a (store_set k v None s))"
| "run_job (GetLoad k a p l) (Rejects e) s = settle p (Rejected e) (clear_loading a s)"
| "run_job (RefreshLoad k l) (Resolves v) s = store_set k v None s"
| "run_job (RefreshLoad k l) (Rejects e) s = s\<lparr>unhandled := unhandled s @ [e]\<rparr>"

definition complete :: "jid \<Rightarrow> result \<Rightarrow> store \<Rightarrow> store" where
  "complete j r s =
     (case jobs s j of
        None \<Rightarrow> s
      | Some jb \<Rightarrow> run_job jb r (s\<lparr>jobs := (jobs s)(j := None)\<rparr>))"

section \<open>Loaders and auto-refresh\<close>

text \<open>\<open>refresh()\<close> of \<open>setAutoRefresh\<close>: it runs synchronously up to \<open>await loader()\<close>.
  A loader that throws synchronously makes the \<open>async\<close> function reject at once, and
  nobody handles that rejection.\<close>

definition refresh :: "key \<Rightarrow> lid \<Rightarrow> store \<Rightarrow> store" where
  "refresh k l s =
     (case loader_throws s l of
        Some err \<Rightarrow> s\<lparr>invoked := invoked s @ [(k, l)], unhandled := unhandled s @ [err]\<rparr>
      | None \<Rightarrow> call_loader (RefreshLoad k l) k l s)"

definition setInterval :: "key \<Rightarrow> lid \<Rightarrow> int \<Rightarrow> store \<Rightarrow> tid \<times> store" where
  "setInterval k l i s =
     (next_tid s, s\<lparr>intervals := (intervals s)(next_tid s \<mapsto> (k, l, i)), next_tid := Suc (next_tid s)\<rparr>)"

text \<open>\<open>setAutoRefresh(key, loader, intervalMs)\<close> (Store.ts lines 84--98).\<close>

definition setAutoRefresh :: "key \<Rightarrow> lid \<Rightarrow> int \<Rightarrow> store \<Rightarrow> store" where
  "setAutoRefresh k l i s =
     (let s1 = refresh k l s;
          (t, s2) = setInterval k l i s1
      in put_entry k ((spread (current s2 k))\<lparr>loader := Some l, refreshInterval := Some t\<rparr>) s2)"

text \<open>\<open>setLoader(key, loader, ttlMs?)\<close> (Store.ts lines 70--81); \<open>if (ttlMs)\<close> is the
  truthiness of the optional number.\<close>

definition setLoader :: "key \<Rightarrow> lid \<Rightarrow> int option \<Rightarrow> store \<Rightarrow> store" where
  "setLoader k l ttl s =
     (let existing = current s k;
          s1 = clear_refresh existing s;
          s2 = put_entry k ((spread existing)\<lparr>loader := Some l\<rparr>) s1
      in case ttl of
           Some i \<Rightarrow> if i \<noteq> 0 then setAutoRefresh k l i s2 else s2
         | None \<Rightarrow> s2)"

text \<open>An interval timer that is still set fires and calls its \<open>refresh\<close>.\<close>

definition fire :: "tid \<Rightarrow> store \<Rightarrow> store" where
  "fire t s = (case intervals s t of None \<Rightarrow> s | Some (k, l, i) \<Rightarrow> refresh k l s)"

definition advance :: "nat \<Rightarrow> store \<Rightarrow> store" where
  "advance d s = s\<lparr>clock := clock s + int d\<rparr>"

section \<open>The event loop\<close>

text \<open>
  One atomic step: a caller's operation (\<open>query\<close> reads only and is not a step), a
  loader settling, an interval timer firing, or time passing.
\<close>

datatype op =
    Get key "lid option"
  | Set key jsval "int option"
  | SetLoader key lid "int option"
  | SetAutoRefresh key lid int
  | Delete key
  | Complete jid result
  | Fire tid
  | Advance nat

fun step :: "op \<Rightarrow> store \<Rightarrow> store" where
  "step (Get k lo) s = snd (store_get k lo s)"
| "step (Set k v ttl) s = store_set k v ttl s"
| "step (SetLoader k l ttl) s = setLoader k l ttl s"
| "step (SetAutoRefresh k l i) s = setAutoRefresh k l i s"
| "step (Delete k) s = store_delete k s"
| "step (Complete j r) s = complete j r s"
| "step (Fire t) s = fire t s"
| "step (Advance d) s = advance d s"

fun run :: "op list \<Rightarrow> store \<Rightarrow> store" where
  "run [] s = s"
| "run (x # xs) s = run xs (step x s)"

text \<open>Several \<open>get\<close> calls for one key issued in the same synchronous stretch.\<close>

fun run_gets :: "key \<Rightarrow> lid option list \<Rightarrow> store \<Rightarrow> outcome list \<times> store" where
  "run_gets k [] s = ([], s)"
| "run_gets k (lo # los) s =
     (let (r, s1) = store_get k lo s;
          (rs, s2) = run_gets k los s1
      in (r # rs, s2))"

inductive reachable :: "store \<Rightarrow> bool" where
  init: "reachable (init_store t0 thr)"
| step: "reachable s \<Longrightarrow> reachable (step x s)"


section \<open>Basic lemmas\<close>

subsection \<open>Frame facts\<close>

lemma call_loader_fields [simp]:
  "data (call_loader jb k l s) = data s" "heap (call_loader jb k l s) = heap s"
  "next_addr (call_loader jb k l s) = next_addr s" "clock (call_loader jb k l s) = clock s"
  "intervals (call_loader jb k l s) = intervals s" "next_tid (call_loader jb k l s) = next_tid s"
  "promises (call_loader jb k l s) = promises s" "next_pid (call_loader jb k l s) = next_pid s"
  "jobs (call_loader jb k l s) = (jobs s)(next_jid s \<mapsto> jb)"
  "next_jid (call_loader jb k l s) = Suc (next_jid s)"
  "invoked (call_loader jb k l s) = invoked s @ [(k, l)]"
  "emitted (call_loader jb k l s) = emitted s" "unhandled (call_loader jb k l s) = unhandled s"
  "loader_throws (call_loader jb k l s) = loader_throws s"
  by (simp_all add: call_loader_def)

lemma entry_at_call_loader [simp]: "entry_at (call_loader jb k l s) = entry_at s"
  by (rule entry_at_frame) simp_all

lemma current_call_loader [simp]: "current (call_loader jb k l s) = current s"
  by (rule current_frame) simp_all

lemma refresh_eq: "loader_throws s l = None \<Longrightarrow> refresh k l s = call_loader (RefreshLoad k l) k l s"
  by (simp add: refresh_def)

lemma refresh_throw:
  "loader_throws s l = Some err \<Longrightarrow>
   refresh k l s = s\<lparr>invoked := invoked s @ [(k, l)], unhandled := unhandled s @ [err]\<rparr>"
  by (simp add: refresh_def)

lemma refresh_fields [simp]:
  "data (refresh k l s) = data s" "heap (refresh k l s) = heap s"
  "next_addr (refresh k l s) = next_addr s" "clock (refresh k l s) = clock s"
  "intervals (refresh k l s) = intervals s" "next_tid (refresh k l s) = next_tid s"
  "promises (refresh k l s) = promises s" "next_pid (refresh k l s) = next_pid s"
  "emitted (refresh k l s) = emitted s" "loader_throws (refresh k l s) = loader_throws s"
  "invoked (refresh k l s) = invoked s @ [(k, l)]"
  by (simp_all add: refresh_def split: option.split)

lemma entry_at_refresh [simp]: "entry_at (refresh k l s) = entry_at s"
  by (rule entry_at_frame) simp_all

lemma current_refresh [simp]: "current (refresh k l s) = current s"
  by (rule current_frame) simp_all

lemma setInterval_eq:
  "setInterval k l i s =
     (next_tid s, s\<lparr>intervals := (intervals s)(next_tid s \<mapsto> (k, l, i)), next_tid := Suc (next_tid s)\<rparr>)"
  by (simp add: setInterval_def)

lemma clear_loading_fields [simp]:
  "data (clear_loading a s) = data s" "next_addr (clear_loading a s) = next_addr s"
  "clock (clear_loading a s) = clock s" "intervals (clear_loading a s) = intervals s"
  "next_tid (clear_loading a s) = next_tid s" "promises (clear_loading a s) = promises s"
  "next_pid (clear_loading a s) = next_pid s" "jobs (clear_loading a s) = jobs s"
  "next_jid (clear_loading a s) = next_jid s" "invoked (clear_loading a s) = invoked s"
  "emitted (clear_loading a s) = emitted s" "unhandled (clear_loading a s) = unhandled s"
  by (simp_all add: clear_loading_def split: option.split)

lemma heap_clear_loading:
  "heap (clear_loading a s) =
     (case heap s a of None \<Rightarrow> heap s | Some e \<Rightarrow> (heap s)(a \<mapsto> e\<lparr>loading := None\<rparr>))"
  by (simp add: clear_loading_def split: option.split)

lemma settle_fields [simp]:
  "data (settle p st s) = data s" "heap (settle p st s) = heap s"
  "next_addr (settle p st s) = next_addr s" "clock (settle p st s) = clock s"
  "intervals (settle p st s) = intervals s" "next_tid (settle p st s) = next_tid s"
  "promises (settle p st s) = (promises s)(p \<mapsto> st)" "next_pid (settle p st s) = next_pid s"
  "jobs (settle p st s) = jobs s" "next_jid (settle p st s) = next_jid s"
  "invoked (settle p st s) = invoked s" "emitted (settle p st s) = emitted s"
  "unhandled (settle p st s) = unhandled s"
  by (simp_all add: settle_def)

lemma advance_fields [simp]:
  "data (advance d s) = data s" "heap (advance d s) = heap s"
  "next_addr (advance d s) = next_addr s" "clock (advance d s) = clock s + int d"
  "intervals (advance d s) = intervals s" "next_tid (advance d s) = next_tid s"
  "promises (advance d s) = promises s" "next_pid (advance d s) = next_pid s"
  "jobs (advance d s) = jobs s" "next_jid (advance d s) = next_jid s"
  "invoked (advance d s) = invoked s" "emitted (advance d s) = emitted s"
  "unhandled (advance d s) = unhandled s"
  by (simp_all add: advance_def)

lemma entry_at_advance [simp]: "entry_at (advance d s) = entry_at s"
  by (rule entry_at_frame) simp_all

lemma current_advance [simp]: "current (advance d s) = current s"
  by (rule current_frame) simp_all

subsection \<open>The branches of \<open>get\<close>\<close>

lemma start_load_join: "loading e = Some p \<Longrightarrow> start_load k lo a e s = (Await p, s)"
  by (simp add: start_load_def)

lemma start_load_none:
  "loading e = None \<Longrightarrow> resolve_loader lo e = None \<Longrightarrow>
   start_load k lo a e s = (Fail (NoLoaderAvailable k), s)"
  by (simp add: start_load_def)

lemma start_load_throw:
  "loading e = None \<Longrightarrow> resolve_loader lo e = Some l \<Longrightarrow> loader_throws s l = Some err \<Longrightarrow>
   start_load k lo a e s = (Fail err, s\<lparr>invoked := invoked s @ [(k, l)]\<rparr>)"
  by (simp add: start_load_def)

lemma start_load_call:
  "loading e = None \<Longrightarrow> resolve_loader lo e = Some l \<Longrightarrow> loader_throws s l = None \<Longrightarrow>
   start_load k lo a e s =
     (Await (next_pid s),
      (call_loader (GetLoad k a (next_pid s) l) k l s)
        \<lparr>promises := (promises s)(next_pid s \<mapsto> Pending), next_pid := Suc (next_pid s),
         heap := (heap s)(a \<mapsto> e\<lparr>loading := Some (next_pid s)\<rparr>)\<rparr>)"
  by (simp add: start_load_def Let_def)

lemma store_get_cached:
  "entry_at s k = Some (a, e) \<Longrightarrow> \<not> isExpired s e \<Longrightarrow> val e \<noteq> Undefined \<Longrightarrow>
   store_get k lo s = (Value (val e), s)"
  by (simp add: store_get_def)

lemma store_get_live:
  "entry_at s k = Some (a, e) \<Longrightarrow> \<not> isExpired s e \<Longrightarrow> val e = Undefined \<Longrightarrow>
   store_get k lo s = start_load k lo a e s"
  by (simp add: store_get_def)

lemma store_get_expired:
  "entry_at s k = Some (a, e) \<Longrightarrow> isExpired s e \<Longrightarrow>
   store_get k lo s =
     start_load k lo (next_addr s) empty_entry (put_entry k empty_entry (store_delete k s))"
  by (simp add: store_get_def)

lemma store_get_absent:
  "entry_at s k = None \<Longrightarrow>
   store_get k lo s = start_load k lo (next_addr s) empty_entry (put_entry k empty_entry s)"
  by (simp add: store_get_def)

lemma start_load_fields [simp]:
  "clock (snd (start_load k lo a e s)) = clock s"
  "data (snd (start_load k lo a e s)) = data s"
  "next_addr (snd (start_load k lo a e s)) = next_addr s"
  "intervals (snd (start_load k lo a e s)) = intervals s"
  "next_tid (snd (start_load k lo a e s)) = next_tid s"
  "emitted (snd (start_load k lo a e s)) = emitted s"
  "unhandled (snd (start_load k lo a e s)) = unhandled s"
  by (simp_all add: start_load_def Let_def split: option.split)

lemma store_get_fields [simp]:
  "clock (snd (store_get k lo s)) = clock s"
  "next_tid (snd (store_get k lo s)) = next_tid s"
  "unhandled (snd (store_get k lo s)) = unhandled s"
  by (simp_all add: store_get_def Let_def split: option.split prod.split)

lemma setLoader_clock [simp]: "clock (setLoader k l ttl s) = clock s"
  by (simp add: setLoader_def setAutoRefresh_def setInterval_eq Let_def split: option.split)

lemma complete_clock [simp]: "clock (complete j r s) = clock s"
proof -
  have "clock (run_job jb r s') = clock s'" for jb s'
    by (cases jb; cases r) (simp_all add: clear_loading_def split: option.split)
  then show ?thesis by (simp add: complete_def split: option.split)
qed


subsection \<open>Evaluation on concrete stores\<close>

text \<open>Every definition of the Store model: the simplifier runs concrete traces with it.\<close>

lemmas store_eval =
  store_get_def start_load_def resolve_loader_def call_loader_def store_set_def
  store_delete_def store_query_def setLoader_def setAutoRefresh_def refresh_def setInterval_def
  complete_def clear_loading_def settle_def fire_def advance_def init_store_def entry_at_def
  current_def spread_def put_entry_def emit_def clearInterval_def clear_refresh_def
  isExpired_def empty_entry_def

end
