(* ===== verification/Store_Get.thy ===== *)
theory Store_Get
  imports Store_Ops
begin

text \<open>
  The behaviour of \<open>Store.get\<close> (src/src/Store.ts lines 17--53) on each of its
  branches, and its main guarantee: calls for a key that has no value, issued before
  the load they start has settled, share one loader call and one promise.
\<close>

text \<open>
  A key needs a load when it has no entry, when its entry has expired, or when its
  entry holds no value and no load is in flight.
\<close>

definition needs_load :: "store \<Rightarrow> key \<Rightarrow> bool" where
  "needs_load s k =
     (case entry_at s k of
        None \<Rightarrow> True
      | Some (a, e) \<Rightarrow> isExpired s e \<or> (val e = Undefined \<and> loading e = None))"

section \<open>Helper lemmas\<close>

lemma isExpired_loading [simp]: "isExpired s (e\<lparr>loading := x\<rparr>) = isExpired s e"
  by (simp add: isExpired_def)

lemma isExpired_empty [simp]: "\<not> isExpired s empty_entry"
  by (simp add: isExpired_def)

lemma isExpired_start_load [simp]:
  "isExpired (snd (start_load k lo a e s)) e' = isExpired s e'"
  by (rule isExpired_frame) simp

lemma isExpired_put_entry [simp]: "isExpired (put_entry k e s) e' = isExpired s e'"
  by (rule isExpired_frame) simp

lemma isExpired_store_delete [simp]: "isExpired (store_delete k s) e' = isExpired s e'"
  by (rule isExpired_frame) simp

lemma entry_at_start_load:
  assumes "data s k = Some a" "loading e = None" "resolve_loader lo e = Some l"
    and "loader_throws s l = None"
  shows "entry_at (snd (start_load k lo a e s)) k = Some (a, e\<lparr>loading := Some (next_pid s)\<rparr>)"
  using assms by (simp add: start_load_call entry_at_def)

lemma run_gets_joined:
  assumes "entry_at s k = Some (a, e)" "\<not> isExpired s e" "val e = Undefined" "loading e = Some p"
  shows "run_gets k los s = (replicate (length los) (Await p), s)"
  using assms by (induction los) (simp_all add: store_get_live start_load_join)

lemma run_gets_after_start:
  assumes "data s k = Some a" "\<not> isExpired s e" "val e = Undefined" "loading e = None"
    and "resolve_loader lo e = Some l" "loader_throws s l = None"
  shows "run_gets k los (snd (start_load k lo a e s)) =
           (replicate (length los) (Await (next_pid s)), snd (start_load k lo a e s))"
proof (rule run_gets_joined)
  show "entry_at (snd (start_load k lo a e s)) k = Some (a, e\<lparr>loading := Some (next_pid s)\<rparr>)"
    using assms(1,4,5,6) by (rule entry_at_start_load)
  show "\<not> isExpired (snd (start_load k lo a e s)) (e\<lparr>loading := Some (next_pid s)\<rparr>)"
    using assms(2) by simp
qed (use assms in simp_all)

text \<open>Whatever branch \<open>get\<close> takes on a key that needs a load, it reaches
  \<open>start_load\<close> on an entry that is registered, live and idle.\<close>

lemma needs_load_start:
  assumes "needs_load s k"
  obtains a e s0 where "store_get k lo s = start_load k lo a e s0" "data s0 k = Some a"
    "\<not> isExpired s0 e" "val e = Undefined" "loading e = None"
    "next_pid s0 = next_pid s" "invoked s0 = invoked s" "loader_throws s0 = loader_throws s"
    "heap s0 a = Some e" "promises s0 = promises s" "clock s0 = clock s"
proof (cases "entry_at s k")
  case None
  then show ?thesis
    by (intro that [of "next_addr s" empty_entry "put_entry k empty_entry s"])
       (simp_all add: store_get_absent)
next
  case (Some ae)
  then obtain a e where ae: "entry_at s k = Some (a, e)" by (cases ae) auto
  show ?thesis
  proof (cases "isExpired s e")
    case True
    with ae show ?thesis
      by (intro that [of "next_addr s" empty_entry "put_entry k empty_entry (store_delete k s)"])
         (simp_all add: store_get_expired)
  next
    case False
    with ae assms have "val e = Undefined" "loading e = None"
      by (simp_all add: needs_load_def)
    moreover from ae have "data s k = Some a" "heap s a = Some e"
      by (simp_all add: entry_at_def split: option.splits)
    ultimately show ?thesis
      using ae False by (intro that [of a e s]) (simp_all add: store_get_live)
  qed
qed

lemma current_set_entry:
  "addr_ok s \<Longrightarrow> entry_at (store_set k v ttl s) k = Some (next_addr s, set_entry s k v ttl)"
  by (simp add: store_set_eq entry_at_put_entry addr_ok_put_entry)

lemma set_entry_fields [simp]:
  "val (set_entry s k v ttl) = v" "expiresAt (set_entry s k v ttl) = ttl_deadline (clock s) ttl"
  by (simp_all add: set_entry_def)

text \<open>The value stored by \<open>set\<close>, read back after \<open>d\<close> milliseconds.\<close>

lemma get_after_set:
  assumes "addr_ok s" and "v \<noteq> Undefined"
    and "\<not> isExpired (advance d (store_set k v ttl s)) (set_entry s k v ttl)"
  shows "store_get k lo (advance d (store_set k v ttl s)) = (Value v, advance d (store_set k v ttl s))"
  using assms by (simp add: store_get_cached current_set_entry)

lemma isExpired_after_set:
  "isExpired (advance d (store_set k v ttl s)) (set_entry s k v ttl) \<longleftrightarrow>
     (case ttl_deadline (clock s) ttl of None \<Rightarrow> False | Some t \<Rightarrow> clock s + int d > t)"
  by (simp add: isExpired_def split: option.split)

section \<open>Properties of \<open>get\<close>\<close>

text \<open>
  C1. De-duplication: on a key that needs a load, \<open>get(key, l)\<close> followed by any
  number of further \<open>get\<close> calls for the key, with any loaders or none, calls a loader
  exactly once (the first call's \<open>l\<close>), and every call returns the same promise.
\<close>

theorem get_dedup:
  assumes "needs_load s k" "loader_throws s l = None"
  shows "fst (run_gets k (Some l # los) s) = replicate (Suc (length los)) (Await (next_pid s)) \<and>
         invoked (snd (run_gets k (Some l # los) s)) = invoked s @ [(k, l)]"
proof -
  obtain a e s0 where get: "store_get k (Some l) s = start_load k (Some l) a e s0"
    and a: "data s0 k = Some a" and live: "\<not> isExpired s0 e" "val e = Undefined"
    and idle: "loading e = None"
    and ids: "next_pid s0 = next_pid s" "invoked s0 = invoked s" "loader_throws s0 = loader_throws s"
    using assms(1) by (rule needs_load_start)
  have res: "resolve_loader (Some l) e = Some l"
    by (simp add: resolve_loader_def)
  let ?s1 = "snd (start_load k (Some l) a e s0)"
  have first: "store_get k (Some l) s = (Await (next_pid s), ?s1)"
    using get idle res ids assms(2) by (simp add: start_load_call)
  have rest: "run_gets k los ?s1 = (replicate (length los) (Await (next_pid s)), ?s1)"
    using run_gets_after_start [OF a live idle res] ids assms(2) by simp
  have "invoked ?s1 = invoked s @ [(k, l)]"
    using idle res ids assms(2) by (simp add: start_load_call)
  with first rest show ?thesis by simp
qed

text \<open>
  C2. A cached value that has not expired is returned at once: no load starts and the
  state does not change.
\<close>

theorem get_returns_cached:
  assumes "current s k = Some e" "\<not> isExpired s e" "val e \<noteq> Undefined"
  shows "store_get k lo s = (Value (val e), s)"
proof -
  from assms(1) obtain a where "entry_at s k = Some (a, e)"
    by (auto simp: current_Some_entry_at)
  with assms(2,3) show ?thesis by (simp add: store_get_cached)
qed

text \<open>
  C3. A call on a key whose entry has a load in flight joins that load: it returns the
  entry's promise, whatever loader it passes, and calls no loader.
\<close>

theorem get_joins_inflight:
  assumes "current s k = Some e" "\<not> isExpired s e" "val e = Undefined" "loading e = Some p"
  shows "store_get k lo s = (Await p, s)"
proof -
  from assms(1) obtain a where "entry_at s k = Some (a, e)"
    by (auto simp: current_Some_entry_at)
  with assms(2-4) show ?thesis by (simp add: store_get_live start_load_join)
qed

text \<open>
  C4. Loader precedence: a loader passed to \<open>get\<close> is the one called, even when the
  entry has a different loader registered.
\<close>

theorem get_explicit_loader_wins:
  assumes "current s k = Some e" "\<not> isExpired s e" "val e = Undefined" "loading e = None"
    and "loader e = Some l'" "loader_throws s l = None"
  shows "store_get k (Some l) s = (Await (next_pid s), snd (store_get k (Some l) s)) \<and>
         invoked (snd (store_get k (Some l) s)) = invoked s @ [(k, l)]"
proof -
  from assms(1) obtain a where "entry_at s k = Some (a, e)"
    by (auto simp: current_Some_entry_at)
  with assms(2-4,6) show ?thesis
    by (simp add: store_get_live start_load_call resolve_loader_def)
qed

text \<open>
  C5. \<open>NoLoaderAvailable\<close>: without a loader argument, on a key with no entry or an
  expired one, \<open>get\<close> fails with \<open>NoLoaderAvailable key\<close> and calls no loader; it
  leaves an empty entry registered under the key.
\<close>

theorem get_without_loader_fails:
  assumes "addr_ok s" and "current s k = None \<or> (\<exists>e. current s k = Some e \<and> isExpired s e)"
  shows "fst (store_get k None s) = Fail (NoLoaderAvailable k) \<and>
         invoked (snd (store_get k None s)) = invoked s \<and>
         current (snd (store_get k None s)) k = Some empty_entry"
proof -
  have none: "resolve_loader None empty_entry = None" "loading empty_entry = None"
    by (simp_all add: resolve_loader_def empty_entry_def)
  show ?thesis
  proof (cases "entry_at s k")
    case None
    with assms(1) none show ?thesis
      by (simp add: store_get_absent start_load_none current_put_entry)
  next
    case (Some ae)
    then obtain a e where ae1: "entry_at s k = Some (a, e)" by (cases ae) auto
    with assms(2) have "isExpired s e" by (auto simp: current_def)
    note ae = ae1 this
    have "addr_ok (store_delete k s)" using assms(1) by (rule addr_ok_store_delete)
    with ae none show ?thesis
      by (simp add: store_get_expired start_load_none current_put_entry)
  qed
qed

text \<open>
  C6. A loader that throws synchronously: \<open>loadFn()\<close> throws before its result is
  wrapped in a promise, so \<open>get\<close> rejects with that error, no promise is created and
  \<open>entry.loading\<close> stays unset. Nothing de-duplicates such failures: the next \<open>get\<close>
  calls the loader again and fails again.
\<close>

theorem get_sync_throw_retries:
  assumes "needs_load s k" "loader_throws s l = Some err"
  shows "fst (store_get k (Some l) s) = Fail err \<and>
         fst (store_get k (Some l) (snd (store_get k (Some l) s))) = Fail err \<and>
         invoked (snd (store_get k (Some l) (snd (store_get k (Some l) s)))) = invoked s @ [(k, l), (k, l)] \<and>
         promises (snd (store_get k (Some l) (snd (store_get k (Some l) s)))) = promises s"
proof -
  obtain a e s0 where get: "store_get k (Some l) s = start_load k (Some l) a e s0"
    and a: "data s0 k = Some a" and live: "\<not> isExpired s0 e" "val e = Undefined"
    and idle: "loading e = None"
    and ids: "next_pid s0 = next_pid s" "invoked s0 = invoked s" "loader_throws s0 = loader_throws s"
    and h: "heap s0 a = Some e" and pr: "promises s0 = promises s"
    using assms(1) by (rule needs_load_start)
  have res: "resolve_loader (Some l) e = Some l" by (simp add: resolve_loader_def)
  let ?s1 = "s0\<lparr>invoked := invoked s @ [(k, l)]\<rparr>"
  have first: "store_get k (Some l) s = (Fail err, ?s1)"
    using get idle res ids assms(2) by (simp add: start_load_throw)
  have e1: "entry_at ?s1 k = Some (a, e)" using a h by (simp add: entry_at_def)
  have "isExpired ?s1 e = isExpired s0 e" by (rule isExpired_frame) simp
  with live(1) have live1: "\<not> isExpired ?s1 e" by simp
  have "store_get k (Some l) ?s1 = (Fail err, ?s1\<lparr>invoked := invoked ?s1 @ [(k, l)]\<rparr>)"
    using e1 live1 live(2) idle res ids assms(2) by (simp add: store_get_live start_load_throw)
  with first pr show ?thesis by simp
qed

section \<open>Witnesses\<close>
lemma get_dedup_witness:
  "needs_load (init_store 0 Map.empty) ''price'' \<and> loader_throws (init_store 0 Map.empty) 1 = None \<and>
   fst (run_gets ''price'' [Some 1, None, Some 2] (init_store 0 Map.empty)) = [Await 0, Await 0, Await 0] \<and>
   invoked (snd (run_gets ''price'' [Some 1, None, Some 2] (init_store 0 Map.empty))) = [(''price'', 1)]"
proof -
  have h: "needs_load (init_store 0 Map.empty) ''price''"
    by (simp add: needs_load_def store_eval)
  have t: "loader_throws (init_store 0 Map.empty) 1 = None" by (simp add: init_store_def)
  show ?thesis using get_dedup [OF h t, of "[None, Some 2]"] h t by (simp add: store_eval)
qed

lemma get_returns_cached_witness:
  "store_get ''x'' None (store_set ''x'' (Num 5) None (init_store 0 Map.empty)) =
     (Value (Num 5), store_set ''x'' (Num 5) None (init_store 0 Map.empty))"
proof -
  let ?s = "store_set ''x'' (Num 5) None (init_store 0 Map.empty)"
  have c: "current ?s ''x'' = Some (empty_entry\<lparr>val := Num 5\<rparr>)"
    by (simp add: store_eval)
  have x: "\<not> isExpired ?s (empty_entry\<lparr>val := Num 5\<rparr>)" by (simp add: store_eval)
  show ?thesis using get_returns_cached [OF c x] by (simp add: empty_entry_def)
qed

lemma get_joins_inflight_witness:
  "store_get ''x'' (Some 2) (snd (store_get ''x'' (Some 1) (init_store 0 Map.empty))) =
     (Await 0, snd (store_get ''x'' (Some 1) (init_store 0 Map.empty)))"
proof -
  let ?s = "snd (store_get ''x'' (Some 1) (init_store 0 Map.empty))"
  have c: "current ?s ''x'' = Some (empty_entry\<lparr>loading := Some 0\<rparr>)"
    by (simp add: store_eval)
  have x: "\<not> isExpired ?s (empty_entry\<lparr>loading := Some 0\<rparr>)" by (simp add: store_eval)
  show ?thesis using get_joins_inflight [OF c x] by (simp add: empty_entry_def)
qed

lemma get_explicit_loader_wins_witness:
  "invoked (snd (store_get ''x'' (Some 1) (setLoader ''x'' 2 None (init_store 0 Map.empty)))) = [(''x'', 1)]"
proof -
  let ?s = "setLoader ''x'' 2 None (init_store 0 Map.empty)"
  have c: "current ?s ''x'' = Some (empty_entry\<lparr>loader := Some 2\<rparr>)"
    by (simp add: store_eval)
  have x: "\<not> isExpired ?s (empty_entry\<lparr>loader := Some 2\<rparr>)" by (simp add: store_eval)
  show ?thesis using get_explicit_loader_wins [OF c x, of 2 1]
    by (simp add: store_eval)
qed

lemma get_without_loader_fails_witness:
  "fst (store_get ''x'' None (init_store 0 Map.empty)) = Fail (NoLoaderAvailable ''x'') \<and>
   invoked (snd (store_get ''x'' None (init_store 0 Map.empty))) = []"
proof -
  have "current (init_store 0 Map.empty) ''x'' = None" by (simp add: store_eval)
  then show ?thesis using get_without_loader_fails [OF addr_ok_init [of 0 Map.empty], of "''x''"]
    by (simp add: init_store_def)
qed

lemma get_sync_throw_retries_witness:
  "fst (store_get ''k'' (Some 1) (init_store 0 [1 \<mapsto> Thrown 3])) = Fail (Thrown 3) \<and>
   invoked (snd (store_get ''k'' (Some 1) (snd (store_get ''k'' (Some 1) (init_store 0 [1 \<mapsto> Thrown 3])))))
     = [(''k'', 1), (''k'', 1)]"
proof -
  have h: "needs_load (init_store 0 [1 \<mapsto> Thrown 3]) ''k''" by (simp add: needs_load_def store_eval)
  have t: "loader_throws (init_store 0 [1 \<mapsto> Thrown 3]) 1 = Some (Thrown 3)" by (simp add: init_store_def)
  show ?thesis using get_sync_throw_retries [OF h t] by (simp add: init_store_def)
qed

end
