(* ===== verification/Store_Expiry.thy ===== *)
theory Store_Expiry
  imports Store_Get
begin

text \<open>
  Time-to-live in \<open>Store\<close>: the deadline \<open>set\<close> writes (\<open>ttlMs ? Date.now() + ttlMs
  : undefined\<close>), the test \<open>isExpired\<close> (\<open>Date.now() > entry.expiresAt\<close>), the purge
  \<open>get\<close> performs on an expired entry, and \<open>query\<close>, which reads the map without
  that test.
\<close>

section \<open>Helper lemmas\<close>

lemma ttl_deadline_pos: "0 < n \<Longrightarrow> ttl_deadline t (Some n) = Some (t + n)"
  by simp

lemma current_advance_set:
  "addr_ok s \<Longrightarrow> current (advance d (store_set k v ttl s)) k = Some (set_entry s k v ttl)"
  by (simp add: current_store_set)

lemma set_entry_refresh [simp]:
  "refreshInterval (set_entry s k v ttl) = refreshInterval (spread (current s k))"
  "loader (set_entry s k v ttl) = loader (spread (current s k))"
  by (simp_all add: set_entry_def)

text \<open>What \<open>get\<close> leaves behind on an expired entry when it is given no loader.\<close>

lemma store_get_expired_no_loader:
  assumes "entry_at s k = Some (a, e)" "isExpired s e"
  shows "store_get k None s = (Fail (NoLoaderAvailable k), put_entry k empty_entry (store_delete k s))"
  using assms by (simp add: store_get_expired start_load_none resolve_loader_def)

section \<open>Properties\<close>

text \<open>
  C7. A value stored with a positive TTL \<open>n\<close> is returned by every \<open>get\<close> up to and
  including the moment \<open>n\<close> milliseconds later (the deadline itself still counts as
  live, since \<open>isExpired\<close> tests \<open>now > expiresAt\<close>).
\<close>

theorem get_within_ttl:
  assumes "addr_ok s" "v \<noteq> Undefined" "0 < n" "int d \<le> n"
  shows "store_get k lo (advance d (store_set k v (Some n) s)) =
           (Value v, advance d (store_set k v (Some n) s))"
proof (rule get_after_set)
  show "\<not> isExpired (advance d (store_set k v (Some n) s)) (set_entry s k v (Some n))"
    using assms(3,4) by (simp add: isExpired_after_set)
qed (use assms in simp_all)

text \<open>
  C8. Once the TTL has passed, the value is gone: \<open>get\<close> without a loader fails with
  \<open>NoLoaderAvailable\<close> instead of returning the stale value.
\<close>

theorem get_after_ttl_fails:
  assumes "addr_ok s" "0 < n" "n < int d"
  shows "fst (store_get k None (advance d (store_set k v (Some n) s))) = Fail (NoLoaderAvailable k)"
proof -
  let ?s = "advance d (store_set k v (Some n) s)"
  have "entry_at ?s k = Some (next_addr s, set_entry s k v (Some n))"
    using assms(1) by (simp add: current_set_entry)
  moreover have "isExpired ?s (set_entry s k v (Some n))"
    using assms(2,3) by (simp add: isExpired_after_set)
  ultimately show ?thesis by (simp add: store_get_expired_no_loader)
qed

text \<open>
  C9. Purge on read: \<open>get\<close> without a loader on an expired entry deletes it (a
  \<open>delete\<close> event is emitted and the entry's refresh timer is cleared), leaves an empty
  entry in its place, and fails with \<open>NoLoaderAvailable\<close>, even when the expired entry
  had a loader registered.
\<close>

theorem get_purges_expired:
  assumes "addr_ok s" "current s k = Some e" "isExpired s e"
  shows "fst (store_get k None s) = Fail (NoLoaderAvailable k) \<and>
         current (snd (store_get k None s)) k = Some empty_entry \<and>
         (\<forall>t. refreshInterval e = Some t \<longrightarrow> intervals (snd (store_get k None s)) t = None) \<and>
         Deleted k \<in> set (emitted (snd (store_get k None s)))"
proof -
  from assms(2) obtain a where ae: "entry_at s k = Some (a, e)"
    by (auto simp: current_Some_entry_at)
  then have d: "data s k = Some a" by (simp add: entry_at_def split: option.splits)
  have ok: "addr_ok (store_delete k s)" using assms(1) by (rule addr_ok_store_delete)
  have "intervals (store_delete k s) t = None" if "refreshInterval e = Some t" for t
    using that assms(2) by (simp add: intervals_store_delete intervals_clear_refresh)
  with ae assms(3) d ok show ?thesis
    by (simp add: store_get_expired_no_loader current_put_entry store_delete_eq)
qed

text \<open>
  C10. A value stored without a TTL, or with a TTL of \<open>0\<close> (falsy in
  \<open>ttlMs ? ... : undefined\<close>), never expires: \<open>get\<close> returns it however much time
  passes.
\<close>

theorem set_without_ttl_persists:
  assumes "addr_ok s" "v \<noteq> Undefined" "ttl = None \<or> ttl = Some 0"
  shows "store_get k lo (advance d (store_set k v ttl s)) = (Value v, advance d (store_set k v ttl s))"
  by (rule get_after_set) (use assms in \<open>auto simp: isExpired_after_set\<close>)

text \<open>
  C11. \<open>query\<close> returns the elements of the stored array that satisfy the predicate,
  and does not test expiry: an expired array is still filtered and returned.
\<close>

theorem query_ignores_expiry:
  assumes "current s k = Some e" "val e = Arr xs" "isExpired s e"
  shows "store_query k f s = filter f xs"
  using assms(1,2) by (simp add: store_query_def)

text \<open>C12. \<open>query\<close> on a key whose value is not an array returns the empty list.\<close>

theorem query_non_array:
  assumes "\<not> is_array (case current s k of None \<Rightarrow> Undefined | Some e \<Rightarrow> val e)"
  shows "store_query k f s = []"
  using assms by (auto simp: store_query_def split: jsval.split)

section \<open>Witnesses\<close>

lemma get_within_ttl_witness:
  "store_get ''x'' None (advance 50 (store_set ''x'' (Num 5) (Some 50) (init_store 0 Map.empty))) =
     (Value (Num 5), advance 50 (store_set ''x'' (Num 5) (Some 50) (init_store 0 Map.empty)))"
  by (rule get_within_ttl [OF addr_ok_init]) simp_all

lemma get_after_ttl_fails_witness:
  "fst (store_get ''x'' None (advance 60 (store_set ''x'' (Num 5) (Some 50) (init_store 0 Map.empty)))) =
     Fail (NoLoaderAvailable ''x'')"
  by (rule get_after_ttl_fails [OF addr_ok_init]) simp_all

lemma get_purges_expired_witness:
  "fst (store_get ''x'' None (advance 60 (store_set ''x'' (Num 5) (Some 50)
          (setLoader ''x'' 3 None (init_store 0 Map.empty))))) = Fail (NoLoaderAvailable ''x'')"
proof -
  let ?s0 = "setLoader ''x'' 3 None (init_store 0 Map.empty)"
  let ?s = "advance 60 (store_set ''x'' (Num 5) (Some 50) ?s0)"
  let ?e = "empty_entry\<lparr>val := Num 5, loader := Some 3, expiresAt := Some 50\<rparr>"
  have ok: "addr_ok ?s" by (simp add: store_eval addr_ok_def fresh_above_def)
  have c: "current ?s ''x'' = Some ?e" by (simp add: store_eval)
  have x: "isExpired ?s ?e" by (simp add: store_eval)
  show ?thesis using get_purges_expired [OF ok c x] by simp
qed

lemma set_without_ttl_persists_witness:
  "store_get ''x'' None (advance 100000 (store_set ''x'' (Num 5) (Some 0) (init_store 0 Map.empty))) =
     (Value (Num 5), advance 100000 (store_set ''x'' (Num 5) (Some 0) (init_store 0 Map.empty)))"
  by (rule set_without_ttl_persists [OF addr_ok_init]) simp_all

lemma query_ignores_expiry_witness:
  "store_query ''l'' (\<lambda>v. case v of Num n \<Rightarrow> 2 < n | _ \<Rightarrow> False)
     (advance 11 (store_set ''l'' (Arr [Num 1, Num 2, Num 3, Num 4]) (Some 10) (init_store 0 Map.empty))) =
   [Num 3, Num 4]"
proof -
  let ?s = "advance 11 (store_set ''l'' (Arr [Num 1, Num 2, Num 3, Num 4]) (Some 10) (init_store 0 Map.empty))"
  let ?e = "empty_entry\<lparr>val := Arr [Num 1, Num 2, Num 3, Num 4], expiresAt := Some 10\<rparr>"
  have c: "current ?s ''l'' = Some ?e" by (simp add: store_eval)
  have x: "isExpired ?s ?e" by (simp add: store_eval)
  show ?thesis using query_ignores_expiry [OF c _ x] by (simp add: empty_entry_def)
qed

lemma query_non_array_witness:
  "store_query ''l'' (\<lambda>v. True) (store_set ''l'' (Num 7) None (init_store 0 Map.empty)) = []"
  by (rule query_non_array) (simp add: store_eval)

end
