(* ===== verification/Store_Refresh.thy ===== *)
theory Store_Refresh
  imports Store_Expiry
begin

text \<open>
  Loader registration and timers in \<open>Store\<close>: \<open>setLoader\<close>, \<open>setAutoRefresh\<close>,
  \<open>delete\<close>, and the loads whose continuation runs after the key has changed. The
  code keeps one timer handle per entry (\<open>refreshInterval\<close>) and relies on each
  writer of that field to clear the previous timer first; loads capture the key (and,
  for \<open>get\<close>, the entry object) when they start, not when they finish.
\<close>

section \<open>Helper lemmas\<close>

lemma setAutoRefresh_eq:
  "setAutoRefresh k l i s =
     put_entry k ((spread (current s k))\<lparr>loader := Some l, refreshInterval := Some (next_tid s)\<rparr>)
       ((refresh k l s)\<lparr>intervals := (intervals s)(next_tid s \<mapsto> (k, l, i)),
                         next_tid := Suc (next_tid s)\<rparr>)"
proof -
  have "current ((refresh k l s)\<lparr>intervals := x, next_tid := y\<rparr>) = current s" for x y
    by (rule current_frame) (simp_all add:)
  then show ?thesis by (simp add: setAutoRefresh_def setInterval_eq)
qed

lemma setAutoRefresh_fields [simp]:
  "intervals (setAutoRefresh k l i s) = (intervals s)(next_tid s \<mapsto> (k, l, i))"
  "next_tid (setAutoRefresh k l i s) = Suc (next_tid s)"
  "clock (setAutoRefresh k l i s) = clock s"
  "next_addr (setAutoRefresh k l i s) = Suc (next_addr s)"
  "invoked (setAutoRefresh k l i s) = invoked s @ [(k, l)]"
  "unhandled (setAutoRefresh k l i s) = unhandled (refresh k l s)"
  by (simp_all add: setAutoRefresh_eq)

lemma addr_ok_refresh_frame:
  "addr_ok s \<Longrightarrow> addr_ok ((refresh k l s)\<lparr>intervals := x, next_tid := y\<rparr>)"
  by (simp add: addr_ok_def)

lemma addr_ok_setAutoRefresh [wf_intros]: "addr_ok s \<Longrightarrow> addr_ok (setAutoRefresh k l i s)"
  by (simp add: setAutoRefresh_eq addr_ok_put_entry addr_ok_refresh_frame)

lemma current_setAutoRefresh:
  "addr_ok s \<Longrightarrow>
   current (setAutoRefresh k l i s) k =
     Some ((spread (current s k))\<lparr>loader := Some l, refreshInterval := Some (next_tid s)\<rparr>)"
proof -
  assume ok: "addr_ok s"
  have "current ((refresh k l s)\<lparr>intervals := x, next_tid := y\<rparr>) = current s" for x y
    by (rule current_frame) (simp_all add:)
  with ok show ?thesis
    by (simp add: setAutoRefresh_eq current_put_entry addr_ok_refresh_frame)
qed

lemma setLoader_no_refresh:
  "\<not> num_truthy ttl \<Longrightarrow>
   setLoader k l ttl s = put_entry k ((spread (current s k))\<lparr>loader := Some l\<rparr>) (clear_refresh (current s k) s)"
  by (cases ttl) (simp_all add: setLoader_def Let_def)

lemma setLoader_refresh:
  "i \<noteq> 0 \<Longrightarrow>
   setLoader k l (Some i) s =
     setAutoRefresh k l i (put_entry k ((spread (current s k))\<lparr>loader := Some l\<rparr>) (clear_refresh (current s k) s))"
  by (simp add: setLoader_def Let_def)

lemma complete_get_rejects:
  "jobs s j = Some (GetLoad k a p l) \<Longrightarrow>
   complete j (Rejects err) s = settle p (Rejected err) (clear_loading a (s\<lparr>jobs := (jobs s)(j := None)\<rparr>))"
  by (simp add: complete_def)

lemma complete_get_resolves:
  "jobs s j = Some (GetLoad k a p l) \<Longrightarrow>
   complete j (Resolves v) s =
     settle p (Fulfilled v) (clear_loading a (store_set k v None (s\<lparr>jobs := (jobs s)(j := None)\<rparr>)))"
  by (simp add: complete_def)

lemma entry_at_settle [simp]: "entry_at (settle p st s) = entry_at s"
  by (rule entry_at_frame) simp_all

lemma entry_at_clear_loading_other:
  assumes "data s k = Some b" "b \<noteq> a"
  shows "entry_at (clear_loading a s) k = entry_at s k"
  using assms by (simp add: entry_at_def heap_clear_loading split: option.split)

lemma entry_at_jobs_upd [simp]: "entry_at (s\<lparr>jobs := x\<rparr>) = entry_at s"
  by (rule entry_at_frame) simp_all

lemma current_jobs_upd [simp]: "current (s\<lparr>jobs := x\<rparr>) = current s"
  by (rule current_frame) simp_all

lemma addr_ok_jobs_upd [simp]: "addr_ok (s\<lparr>jobs := x\<rparr>) = addr_ok s"
  by (simp add: addr_ok_def)

lemma isExpired_settle_clear [simp]:
  "isExpired (settle p st (clear_loading a s)) e = isExpired s e"
  by (rule isExpired_frame) simp

section \<open>Properties\<close>

text \<open>
  C13. \<open>setAutoRefresh\<close> does not clear the timer it replaces: after two calls for one
  key both interval timers are set while the entry records only the second, so
  \<open>delete\<close> clears the second and the first keeps firing, calling its loader again
  after the key is gone.
\<close>

theorem setAutoRefresh_twice_leaks_timer:
  assumes "addr_ok s"
  shows "let s2 = setAutoRefresh k lb ib (setAutoRefresh k la ia s) in
           intervals s2 (next_tid s) = Some (k, la, ia) \<and>
           intervals s2 (Suc (next_tid s)) = Some (k, lb, ib) \<and>
           map_option refreshInterval (current s2 k) = Some (Some (Suc (next_tid s))) \<and>
           intervals (store_delete k s2) (next_tid s) = Some (k, la, ia) \<and>
           invoked (fire (next_tid s) (store_delete k s2)) = invoked (store_delete k s2) @ [(k, la)]"
proof -
  let ?s1 = "setAutoRefresh k la ia s"
  let ?s2 = "setAutoRefresh k lb ib ?s1"
  have ok1: "addr_ok ?s1" using assms by (rule addr_ok_setAutoRefresh)
  have cur: "current ?s2 k =
      Some ((spread (current ?s1 k))\<lparr>loader := Some lb, refreshInterval := Some (Suc (next_tid s))\<rparr>)"
    using current_setAutoRefresh [OF ok1] by simp
  have t1: "intervals ?s2 (next_tid s) = Some (k, la, ia)" by simp
  have del: "intervals (store_delete k ?s2) (next_tid s) = Some (k, la, ia)"
    using cur t1 by (simp add: intervals_store_delete intervals_clear_refresh)
  then have "invoked (fire (next_tid s) (store_delete k ?s2)) = invoked (store_delete k ?s2) @ [(k, la)]"
    by (simp add: fire_def)
  with cur t1 del show ?thesis by (simp add: Let_def)
qed

text \<open>
  C14. \<open>setLoader\<close> clears the timer the entry records before installing the new
  loader; with a truthy interval it installs exactly one new timer and records it.
\<close>

theorem setLoader_replaces_timer:
  assumes "addr_ok s" "current s k = Some e" "refreshInterval e = Some t" "t < next_tid s" "i \<noteq> 0"
  shows "intervals (setLoader k l (Some i) s) t = None \<and>
         intervals (setLoader k l (Some i) s) (next_tid s) = Some (k, l, i) \<and>
         map_option refreshInterval (current (setLoader k l (Some i) s) k) = Some (Some (next_tid s)) \<and>
         (\<forall>t'. t' \<noteq> t \<and> t' \<noteq> next_tid s \<longrightarrow> intervals (setLoader k l (Some i) s) t' = intervals s t')"
proof -
  let ?s1 = "put_entry k ((spread (current s k))\<lparr>loader := Some l\<rparr>) (clear_refresh (current s k) s)"
  have ok1: "addr_ok ?s1" using assms(1) by (simp add: addr_ok_put_entry addr_ok_clear_refresh)
  have iv: "intervals ?s1 = (intervals s)(t := None)"
    using assms(2,3) by (simp add: intervals_clear_refresh)
  have "map_option refreshInterval (current (setAutoRefresh k l i ?s1) k) = Some (Some (next_tid s))"
    using current_setAutoRefresh [OF ok1] by simp
  with iv assms(4,5) show ?thesis by (simp add: setLoader_refresh)
qed

text \<open>
  C15. \<open>delete\<close> removes the key's entry and clears the timer the entry records; it
  emits \<open>delete\<close> exactly when the key was in the map.
\<close>

theorem delete_removes_entry_and_timer:
  "current (store_delete k s) k = None \<and>
   (\<forall>e t. current s k = Some e \<longrightarrow> refreshInterval e = Some t \<longrightarrow>
           intervals (store_delete k s) t = None) \<and>
   emitted (store_delete k s) = emitted s @ (if data s k \<noteq> None then [Deleted k] else [])"
proof (intro conjI allI impI)
  show "current (store_delete k s) k = None" by (simp add: current_store_delete)
next
  fix e t assume "current s k = Some e" "refreshInterval e = Some t"
  then show "intervals (store_delete k s) t = None"
    by (simp add: intervals_store_delete intervals_clear_refresh)
next
  show "emitted (store_delete k s) = emitted s @ (if data s k \<noteq> None then [Deleted k] else [])"
    by (simp add: store_delete_eq)
qed

text \<open>
  C16. A refresh whose loader fails changes no entry and no timer: the interval timer
  stays set, so the next tick still fires; the rejection of \<open>refresh()\<close> is left
  unhandled.
\<close>

theorem refresh_failure_isolated:
  assumes "jobs s j = Some (RefreshLoad k l)"
  shows "intervals (complete j (Rejects err) s) = intervals s \<and>
         current (complete j (Rejects err) s) = current s \<and>
         unhandled (complete j (Rejects err) s) = unhandled s @ [err]"
proof -
  have "current (s\<lparr>jobs := (jobs s)(j := None), unhandled := unhandled s @ [err]\<rparr>) = current s"
    by (rule current_frame) simp_all
  with assms show ?thesis by (simp add: complete_def)
qed

text \<open>
  C17. A load started by \<open>get\<close> that is still in flight when the key is deleted writes
  its value afterwards: the deleted key comes back holding the loaded value.
\<close>

theorem load_after_delete_resurrects:
  assumes "addr_ok s" "jobs s j = Some (GetLoad k a p l)" "heap s a \<noteq> None"
  shows "current (complete j (Resolves v) (store_delete k s)) k = Some (empty_entry\<lparr>val := v\<rparr>) \<and>
         promises (complete j (Resolves v) (store_delete k s)) p = Some (Fulfilled v)"
proof -
  let ?s0 = "(store_delete k s)\<lparr>jobs := (jobs s)(j := None)\<rparr>"
  have ok: "addr_ok ?s0" using assms(1) by (simp add: addr_ok_store_delete)
  have a: "a < next_addr s"
    using assms(1,3) unfolding addr_ok_def by (metis fresh_above_dom not_None_eq)
  have set: "entry_at (store_set k v None ?s0) k = Some (next_addr s, set_entry ?s0 k v None)"
    using current_set_entry [OF ok] by simp
  have "current ?s0 k = None" by (simp add: current_store_delete)
  then have "set_entry ?s0 k v None = empty_entry\<lparr>val := v\<rparr>"
    by (simp add: set_entry_def spread_def empty_entry_def)
  moreover have "data (store_set k v None ?s0) k = Some (next_addr s)"
    using set by (simp add: entry_at_def split: option.splits)
  ultimately show ?thesis
    using assms(2) set a by (simp add: complete_get_resolves entry_at_clear_loading_other current_def)
qed

text \<open>
  C18. A rejected load can stick: when \<open>setLoader\<close> replaces the entry object while a
  load started by \<open>get\<close> is in flight, the copy keeps the load's promise in
  \<open>loading\<close>, and the failure clears \<open>loading\<close> only in the old object. From then on
  every \<open>get\<close> for the key returns the rejected promise and calls no loader, whichever
  loader it is given.
\<close>

theorem rejected_load_sticks:
  assumes "addr_ok s" "entry_at s k = Some (a, e)" "\<not> isExpired s e" "val e = Undefined"
    and "loading e = Some p" "jobs s j = Some (GetLoad k a p l)"
  shows "let s' = complete j (Rejects err) (setLoader k l' None s) in
           promises s' p = Some (Rejected err) \<and>
           run_gets k los s' = (replicate (length los) (Await p), s')"
proof -
  let ?s1 = "setLoader k l' None s"
  let ?s' = "complete j (Rejects err) ?s1"
  have cur: "current s k = Some e" using assms(2) by (simp add: current_def)
  have s1: "?s1 = put_entry k (e\<lparr>loader := Some l'\<rparr>) (clear_refresh (Some e) s)"
    using cur by (simp add: setLoader_no_refresh spread_def)
  have a: "a < next_addr s"
    using assms(1,2) addr_ok_fresh by (simp add: entry_at_def split: option.splits)
  have j1: "jobs ?s1 j = Some (GetLoad k a p l)" using assms(6) s1 by simp
  have e1: "entry_at ?s1 k = Some (next_addr s, e\<lparr>loader := Some l'\<rparr>)"
    using s1 assms(1) by (simp add: entry_at_put_entry addr_ok_clear_refresh)
  then have d1: "data ?s1 k = Some (next_addr s)"
    by (simp add: entry_at_def split: option.splits)
  have e': "entry_at ?s' k = Some (next_addr s, e\<lparr>loader := Some l'\<rparr>)"
    using j1 e1 d1 a by (simp add: complete_get_rejects entry_at_clear_loading_other)
  have "clock ?s' = clock s" by simp
  then have "isExpired ?s' (e\<lparr>loader := Some l'\<rparr>) = isExpired s (e\<lparr>loader := Some l'\<rparr>)"
    by (rule isExpired_frame)
  with assms(3) have live: "\<not> isExpired ?s' (e\<lparr>loader := Some l'\<rparr>)"
    by (simp add: isExpired_def)
  have "run_gets k los ?s' = (replicate (length los) (Await p), ?s')"
    using run_gets_joined [OF e' live, of p los] assms(4,5) by simp
  moreover have "promises ?s' p = Some (Rejected err)"
    using j1 by (simp add: complete_get_rejects)
  ultimately show ?thesis by (simp add: Let_def)
qed

section \<open>Witnesses\<close>
lemma setAutoRefresh_twice_leaks_timer_witness:
  "intervals (store_delete ''k'' (setAutoRefresh ''k'' 2 100 (setAutoRefresh ''k'' 1 100 (init_store 0 Map.empty)))) 0
     = Some (''k'', 1, 100)"
  using setAutoRefresh_twice_leaks_timer [OF addr_ok_init [of 0 Map.empty],
      where k = "''k''" and la = 1 and ia = 100 and lb = 2 and ib = 100]
  by (simp add: Let_def init_store_def)

lemma setLoader_replaces_timer_witness:
  "intervals (setLoader ''k'' 2 (Some 50) (setAutoRefresh ''k'' 1 100 (init_store 0 Map.empty))) 0 = None \<and>
   intervals (setLoader ''k'' 2 (Some 50) (setAutoRefresh ''k'' 1 100 (init_store 0 Map.empty))) 1 = Some (''k'', 2, 50)"
proof -
  let ?s = "setAutoRefresh ''k'' 1 100 (init_store 0 Map.empty)"
  have ok: "addr_ok ?s" by (rule addr_ok_setAutoRefresh [OF addr_ok_init])
  have c: "current ?s ''k'' = Some (empty_entry\<lparr>loader := Some 1, refreshInterval := Some 0\<rparr>)"
    by (simp add: store_eval)
  show ?thesis
    using setLoader_replaces_timer [OF ok c, where t = 0 and i = 50 and l = 2]
    by (simp add: init_store_def)
qed

lemma delete_removes_entry_and_timer_witness:
  "intervals (store_delete ''k'' (setAutoRefresh ''k'' 1 100 (init_store 0 Map.empty))) 0 = None"
proof -
  let ?s = "setAutoRefresh ''k'' 1 100 (init_store 0 Map.empty)"
  have c: "current ?s ''k'' = Some (empty_entry\<lparr>loader := Some 1, refreshInterval := Some 0\<rparr>)"
    by (simp add: store_eval)
  show ?thesis using delete_removes_entry_and_timer [of "''k''" ?s] c by simp
qed

lemma refresh_failure_isolated_witness:
  "intervals (complete 0 (Rejects (Thrown 7)) (setAutoRefresh ''k'' 1 100 (init_store 0 Map.empty))) 0 = Some (''k'', 1, 100) \<and>
   unhandled (complete 0 (Rejects (Thrown 7)) (setAutoRefresh ''k'' 1 100 (init_store 0 Map.empty))) = [Thrown 7]"
proof -
  let ?s = "setAutoRefresh ''k'' 1 100 (init_store 0 Map.empty)"
  have j: "jobs ?s 0 = Some (RefreshLoad ''k'' 1)" by (simp add: store_eval)
  show ?thesis using refresh_failure_isolated [OF j, of "Thrown 7"] by (simp add: init_store_def refresh_def)
qed

lemma load_after_delete_resurrects_witness:
  "current (complete 0 (Resolves (Num 9)) (store_delete ''k'' (snd (store_get ''k'' (Some 1) (init_store 0 Map.empty))))) ''k''
     = Some (empty_entry\<lparr>val := Num 9\<rparr>)"
proof -
  let ?s = "snd (store_get ''k'' (Some 1) (init_store 0 Map.empty))"
  have ok: "addr_ok ?s" by (simp add: store_eval addr_ok_def fresh_above_def)
  have j: "jobs ?s 0 = Some (GetLoad ''k'' 0 0 1)" by (simp add: store_eval)
  have h: "heap ?s 0 \<noteq> None" by (simp add: store_eval)
  show ?thesis using load_after_delete_resurrects [OF ok j h, of "Num 9"] by simp
qed

lemma rejected_load_sticks_witness:
  "fst (run_gets ''k'' [None, Some 3]
     (complete 0 (Rejects (Thrown 7)) (setLoader ''k'' 2 None (snd (store_get ''k'' (Some 1) (init_store 0 Map.empty))))))
   = [Await 0, Await 0]"
proof -
  let ?s = "snd (store_get ''k'' (Some 1) (init_store 0 Map.empty))"
  have ok: "addr_ok ?s" by (simp add: store_eval addr_ok_def fresh_above_def)
  have e: "entry_at ?s ''k'' = Some (0, empty_entry\<lparr>loading := Some 0\<rparr>)" by (simp add: store_eval)
  have x: "\<not> isExpired ?s (empty_entry\<lparr>loading := Some 0\<rparr>)" by (simp add: store_eval)
  have j: "jobs ?s 0 = Some (GetLoad ''k'' 0 0 1)" by (simp add: store_eval)
  show ?thesis
    using rejected_load_sticks [OF ok e x _ _ j, where err = "Thrown 7" and l' = 2 and los = "[None, Some 3]"]
    by (simp add: Let_def)
qed

end
