(* ===== verification/Store_Invariant.thy ===== *)
theory Store_Invariant
  imports Store_Refresh
begin

text \<open>
  The well-formedness invariant of the Store model and its preservation by every step of
  the event loop (\<open>step\<close>): entry objects are live and allocated below
  \<open>next_addr\<close>, no two keys share an object, the promise, job and timer tables are
  fresh above their counters, every \<open>loading\<close> handle names an allocated promise, and the
  pending promises of \<open>get\<close> are exactly those of its in-flight loads, one load per
  promise, each captured object still holding its promise. From it: at most one load is
  in flight per entry object, and every promise a \<open>get\<close> returns is either settled or
  settled by completing one specific load. The spec's stronger promise, one load in flight
  per key, does not hold.
\<close>

definition keys_disjoint :: "store \<Rightarrow> bool" where
  "keys_disjoint s \<longleftrightarrow> (\<forall>k1 k2 a. data s k1 = Some a \<longrightarrow> data s k2 = Some a \<longrightarrow> k1 = k2)"

definition handles_ok :: "store \<Rightarrow> bool" where
  "handles_ok s \<longleftrightarrow> (\<forall>a e p. heap s a = Some e \<longrightarrow> loading e = Some p \<longrightarrow> promises s p \<noteq> None)"

definition jobs_ok :: "store \<Rightarrow> bool" where
  "jobs_ok s \<longleftrightarrow>
     (\<forall>j k a p l. jobs s j = Some (GetLoad k a p l) \<longrightarrow>
        promises s p = Some Pending \<and> (\<exists>e. heap s a = Some e \<and> loading e = Some p))"

definition pending_ok :: "store \<Rightarrow> bool" where
  "pending_ok s \<longleftrightarrow>
     (\<forall>p. promises s p = Some Pending \<longrightarrow> (\<exists>j k a l. jobs s j = Some (GetLoad k a p l)))"

definition jobs_unique :: "store \<Rightarrow> bool" where
  "jobs_unique s \<longleftrightarrow>
     (\<forall>j1 j2 k1 k2 a1 a2 p l1 l2.
        jobs s j1 = Some (GetLoad k1 a1 p l1) \<longrightarrow> jobs s j2 = Some (GetLoad k2 a2 p l2) \<longrightarrow> j1 = j2)"

definition wf_store :: "store \<Rightarrow> bool" where
  "wf_store s \<longleftrightarrow>
     addr_ok s \<and> keys_disjoint s \<and> fresh_above (promises s) (next_pid s) \<and>
     fresh_above (jobs s) (next_jid s) \<and> fresh_above (intervals s) (next_tid s) \<and>
     handles_ok s \<and> jobs_ok s \<and> pending_ok s \<and> jobs_unique s"

lemmas wf_parts = wf_store_def keys_disjoint_def handles_ok_def jobs_ok_def pending_ok_def jobs_unique_def

lemma wf_init: "wf_store (init_store t0 thr)"
  by (simp add: wf_parts init_store_def addr_ok_def)

lemma wf_log [simp]:
  "wf_store (s\<lparr>invoked := x\<rparr>) = wf_store s"
  "wf_store (s\<lparr>invoked := x, unhandled := y\<rparr>) = wf_store s"
  by (simp_all add: wf_parts addr_ok_def)

lemma wf_emit [wf_intros]: "wf_store s \<Longrightarrow> wf_store (emit ev s)"
  by (simp add: wf_parts addr_ok_def)

lemma wf_clear_refresh [wf_intros]: "wf_store s \<Longrightarrow> wf_store (clear_refresh eo s)"
  by (auto simp: wf_parts addr_ok_def intervals_clear_refresh split: option.split)

lemma wf_advance [wf_intros]: "wf_store s \<Longrightarrow> wf_store (advance d s)"
  by (simp add: wf_parts addr_ok_def)

lemma wf_put_entry [wf_intros]:
  assumes "wf_store s" "\<forall>p. loading e = Some p \<longrightarrow> promises s p \<noteq> None"
  shows "wf_store (put_entry k e s)"
proof -
  have fresh: "data s k' = Some a \<Longrightarrow> a < next_addr s" for k' a
    using assms(1) by (auto simp: wf_store_def intro: addr_ok_fresh)
  have job: "jobs s j = Some (GetLoad k' a p l) \<Longrightarrow> a < next_addr s" for j k' a p l
    using assms(1) unfolding wf_parts addr_ok_def by (metis fresh_above_dom)
  show ?thesis
    using assms fresh job unfolding wf_parts
    by (auto simp: addr_ok_put_entry dest: fresh job)
qed

lemma wf_handle: "wf_store s \<Longrightarrow> heap s a = Some e \<Longrightarrow> loading e = Some p \<Longrightarrow> promises s p \<noteq> None"
  by (auto simp: wf_store_def handles_ok_def)

lemma wf_current_handle:
  assumes "wf_store s" "current s k = Some e" "loading e = Some p"
  shows "promises s p \<noteq> None"
proof -
  from assms(2) obtain a where "heap s a = Some e"
    by (auto simp: current_def entry_at_def split: option.splits)
  from assms(1) this assms(3) show ?thesis by (rule wf_handle)
qed

lemma wf_store_set [wf_intros]: "wf_store s \<Longrightarrow> wf_store (store_set k v ttl s)"
  unfolding store_set_eq
  by (intro wf_emit wf_put_entry)
     (auto simp: set_entry_def spread_def split: option.split dest: wf_current_handle)

lemma wf_store_delete [wf_intros]: "wf_store s \<Longrightarrow> wf_store (store_delete k s)"
proof -
  assume w: "wf_store s"
  then have "wf_store (clear_refresh (current s k) s)" by (rule wf_clear_refresh)
  then have "wf_store ((clear_refresh (current s k) s)\<lparr>data := (data s)(k := None)\<rparr>)"
    by (auto simp: wf_parts addr_ok_def)
  with w show ?thesis by (simp add: store_delete_eq wf_emit wf_clear_refresh)
qed


lemma wf_job_addr:
  "wf_store s \<Longrightarrow> jobs s j = Some (GetLoad k a p l) \<Longrightarrow>
   \<exists>e. heap s a = Some e \<and> loading e = Some p \<and> promises s p = Some Pending"
  unfolding wf_store_def jobs_ok_def by blast

lemma wf_job_other:
  assumes "wf_store s" "jobs s j = Some (GetLoad k a p l)" "jobs s j' = Some (GetLoad k' a' p' l')"
    and "j' \<noteq> j"
  shows "p' \<noteq> p \<and> a' \<noteq> a"
proof -
  have "p' \<noteq> p" using assms unfolding wf_store_def jobs_unique_def by blast
  moreover have "a' \<noteq> a"
  proof
    assume "a' = a"
    obtain e where "heap s a = Some e" "loading e = Some p"
      using wf_job_addr [OF assms(1,2)] by blast
    moreover obtain e' where "heap s a' = Some e'" "loading e' = Some p'"
      using wf_job_addr [OF assms(1,3)] by blast
    ultimately show False using \<open>a' = a\<close> \<open>p' \<noteq> p\<close> by simp
  qed
  ultimately show ?thesis ..
qed

lemma wf_start_call:
  assumes w: "wf_store s" and h: "heap s a = Some e" and idle: "loading e = None"
  shows "wf_store ((call_loader (GetLoad k a (next_pid s) l) k l s)
           \<lparr>promises := (promises s)(next_pid s \<mapsto> Pending), next_pid := Suc (next_pid s),
            heap := (heap s)(a \<mapsto> e\<lparr>loading := Some (next_pid s)\<rparr>)\<rparr>)"
    (is "wf_store ?t")
proof -
  let ?p = "next_pid s"
  have pn: "promises s ?p = None" and jn: "jobs s (next_jid s) = None"
    using w by (simp_all add: wf_store_def)
  have old: "a' \<noteq> a \<and> p' \<noteq> ?p" if "jobs s j' = Some (GetLoad k' a' p' l')" for j' k' a' p' l'
    using wf_job_addr [OF w that] h idle pn by auto
  from w have parts: "addr_ok s" "keys_disjoint s" "fresh_above (promises s) ?p"
    "fresh_above (jobs s) (next_jid s)" "fresh_above (intervals s) (next_tid s)"
    "handles_ok s" "jobs_ok s" "pending_ok s" "jobs_unique s"
    by (simp_all add: wf_store_def)
  have "addr_ok ?t" using parts(1) h by (auto simp: addr_ok_def)
  moreover have "keys_disjoint ?t" using parts(2) by (simp add: keys_disjoint_def)
  moreover have "handles_ok ?t" using parts(6) by (auto simp: handles_ok_def)
  moreover have "jobs_ok ?t" using parts(7) by (auto simp: jobs_ok_def dest: old)
  moreover have "pending_ok ?t"
    unfolding pending_ok_def
  proof (intro allI impI)
    fix q assume "promises ?t q = Some Pending"
    then show "\<exists>j k a l. jobs ?t j = Some (GetLoad k a q l)"
    proof (cases "q = ?p")
      case False
      with \<open>promises ?t q = Some Pending\<close> parts(8) obtain j k' a' l'
        where "jobs s j = Some (GetLoad k' a' q l')" by (auto simp: pending_ok_def)
      moreover from this jn have "j \<noteq> next_jid s" by auto
      ultimately show ?thesis by auto
    qed auto
  qed
  moreover have "jobs_unique ?t" using parts(9) old jn by (auto simp: jobs_unique_def) blast+
  ultimately show ?thesis using parts(3-5) by (simp add: wf_store_def fresh_above_facts)
qed

lemma wf_partsD:
  assumes "wf_store s"
  shows "addr_ok s" "keys_disjoint s" "fresh_above (promises s) (next_pid s)"
    "fresh_above (jobs s) (next_jid s)" "fresh_above (intervals s) (next_tid s)"
    "handles_ok s" "jobs_ok s" "pending_ok s" "jobs_unique s"
  using assms by (simp_all add: wf_store_def)

lemma wf_start_load [wf_intros]:
  assumes "wf_store s" "heap s a = Some e"
  shows "wf_store (snd (start_load k lo a e s))"
proof (cases "loading e")
  case None
  show ?thesis
  proof (cases "resolve_loader lo e")
    case (Some l)
    with None assms show ?thesis
      by (cases "loader_throws s l") (simp_all add: start_load_call start_load_throw wf_start_call)
  qed (use None assms in \<open>simp add: start_load_none\<close>)
qed (use assms in \<open>simp add: start_load_join\<close>)

lemma wf_store_get [wf_intros]:
  assumes "wf_store s"
  shows "wf_store (snd (store_get k lo s))"
proof (cases "entry_at s k")
  case None
  have "wf_store (put_entry k empty_entry s)" using assms by (simp add: wf_put_entry)
  with None show ?thesis by (simp add: store_get_absent wf_start_load)
next
  case (Some ae)
  then obtain a e where ae: "entry_at s k = Some (a, e)" by (cases ae) auto
  then have h: "heap s a = Some e" by (simp add: entry_at_def split: option.splits)
  have d: "wf_store (put_entry k empty_entry (store_delete k s))"
    using assms by (simp add: wf_put_entry wf_store_delete)
  show ?thesis
    using ae h d assms
    by (cases "isExpired s e"; cases "val e = Undefined")
       (simp_all add: store_get_expired store_get_live store_get_cached wf_start_load)
qed

lemma wf_refresh [wf_intros]: "wf_store s \<Longrightarrow> wf_store (refresh k l s)"
proof (cases "loader_throws s l")
  case None
  assume "wf_store s"
  with None show ?thesis
    unfolding refresh_eq [OF None] wf_parts addr_ok_def
    by (auto simp: fresh_above_facts) (metis fresh_above_at option.distinct(1))
qed (simp add: refresh_throw)

lemma wf_setInterval_frame:
  "wf_store s \<Longrightarrow> wf_store (s\<lparr>intervals := (intervals s)(next_tid s \<mapsto> x), next_tid := Suc (next_tid s)\<rparr>)"
  by (simp add: wf_parts addr_ok_def fresh_above_facts)

lemma wf_setAutoRefresh [wf_intros]: "wf_store s \<Longrightarrow> wf_store (setAutoRefresh k l i s)"
proof -
  assume w: "wf_store s"
  let ?s1 = "(refresh k l s)\<lparr>intervals := (intervals s)(next_tid s \<mapsto> (k, l, i)), next_tid := Suc (next_tid s)\<rparr>"
  have w1: "wf_store ?s1"
    using wf_setInterval_frame [OF wf_refresh [OF w]] by simp
  have "promises ?s1 = promises s" by simp
  then have "\<forall>p. loading ((spread (current s k))\<lparr>loader := Some l, refreshInterval := Some (next_tid s)\<rparr>) = Some p
              \<longrightarrow> promises ?s1 p \<noteq> None"
    using w by (auto simp: spread_def split: option.split dest: wf_current_handle)
  with w1 show ?thesis by (simp add: setAutoRefresh_eq wf_put_entry)
qed

lemma wf_setLoader [wf_intros]: "wf_store s \<Longrightarrow> wf_store (setLoader k l ttl s)"
proof -
  assume w: "wf_store s"
  have "wf_store (put_entry k ((spread (current s k))\<lparr>loader := Some l\<rparr>) (clear_refresh (current s k) s))"
    using w by (intro wf_put_entry wf_clear_refresh)
               (auto simp: spread_def split: option.split dest: wf_current_handle)
  moreover have "setLoader k l ttl s =
      put_entry k ((spread (current s k))\<lparr>loader := Some l\<rparr>) (clear_refresh (current s k) s) \<or>
    (\<exists>i. setLoader k l ttl s =
      setAutoRefresh k l i (put_entry k ((spread (current s k))\<lparr>loader := Some l\<rparr>) (clear_refresh (current s k) s)))"
  proof (cases ttl)
    case (Some i)
    then show ?thesis by (cases "i = 0") (auto simp: setLoader_no_refresh setLoader_refresh)
  qed (simp add: setLoader_no_refresh)
  ultimately show ?thesis by (auto intro: wf_setAutoRefresh)
qed

lemma wf_fire [wf_intros]: "wf_store s \<Longrightarrow> wf_store (fire t s)"
  by (simp add: fire_def wf_refresh split: option.split prod.split)

text \<open>What completing a \<open>get\<close> load leaves: the job is gone, its promise is settled,
  its captured object has \<open>loading\<close> cleared, and every other job is untouched.\<close>

lemma wf_retire:
  assumes w: "wf_store s" and j: "jobs s j = Some (GetLoad k a p l)"
    and ea: "heap s a = Some ea" "loading ea = Some p"
    and t: "data t = data m" "next_addr t = next_addr m" "next_pid t = next_pid s"
      "next_jid t = next_jid s" "next_tid t = next_tid s" "intervals t = intervals s"
      "jobs t = (jobs s)(j := None)" "promises t = (promises s)(p \<mapsto> st)"
      "heap t = (heap m)(a \<mapsto> ea\<lparr>loading := None\<rparr>)"
    and m: "addr_ok m" "keys_disjoint m" "heap m a = Some ea" "next_addr s \<le> next_addr m"
      "\<forall>a'. a' < next_addr s \<longrightarrow> heap m a' = heap s a'"
      "\<forall>a' e' q. heap m a' = Some e' \<longrightarrow> loading e' = Some q \<longrightarrow> promises s q \<noteq> None"
    and st: "st \<noteq> Pending"
  shows "wf_store t"
proof -
  note parts = wf_partsD [OF w]
  have pa: "promises s p = Some Pending" using wf_job_addr [OF w j] ea by auto
  have other: "p' \<noteq> p \<and> a' \<noteq> a \<and> a' < next_addr s"
    if jj: "jobs s j' = Some (GetLoad k' a' p' l')" "j' \<noteq> j" for j' k' a' p' l'
  proof -
    obtain e' where "heap s a' = Some e'" using wf_job_addr [OF w jj(1)] by blast
    then have "a' < next_addr s" using parts(1) by (auto simp: addr_ok_def intro: fresh_above_dom)
    with wf_job_other [OF w j jj] show ?thesis by simp
  qed
  have "addr_ok t" using m(1,3) t by (auto simp: addr_ok_def)
  moreover have "keys_disjoint t" using m(2) t by (simp add: keys_disjoint_def)
  moreover have "fresh_above (promises t) (next_pid t)"
    using parts(3) pa t by (simp add: fresh_above_update)
  moreover have "fresh_above (jobs t) (next_jid t)" using parts(4) t by (simp add: fresh_above_remove)
  moreover have "fresh_above (intervals t) (next_tid t)" using parts(5) t by simp
  moreover have "handles_ok t" using m(6) pa t by (auto simp: handles_ok_def)
  moreover have "jobs_ok t"
    unfolding jobs_ok_def
  proof (intro allI impI)
    fix j' k' a' p' l' assume "jobs t j' = Some (GetLoad k' a' p' l')"
    then have j': "jobs s j' = Some (GetLoad k' a' p' l')" "j' \<noteq> j" using t by (auto split: if_splits)
    then show "promises t p' = Some Pending \<and> (\<exists>e. heap t a' = Some e \<and> loading e = Some p')"
      using wf_job_addr [OF w j'(1)] other [OF j'] m(5) t by auto
  qed
  moreover have "pending_ok t"
    unfolding pending_ok_def
  proof (intro allI impI)
    fix q assume "promises t q = Some Pending"
    with st t have q: "q \<noteq> p" "promises s q = Some Pending" by (auto split: if_splits)
    with parts(8) obtain j' k' a' l' where "jobs s j' = Some (GetLoad k' a' q l')"
      by (auto simp: pending_ok_def)
    moreover from this j q have "j' \<noteq> j" by auto
    ultimately show "\<exists>j k a l. jobs t j = Some (GetLoad k a q l)" using t by auto
  qed
  moreover have "jobs_unique t" using parts(9) t by (auto simp: jobs_unique_def split: if_splits)
  ultimately show ?thesis using t by (simp add: wf_store_def)
qed

lemma keys_disjoint_store_set:
  assumes "addr_ok s" "keys_disjoint s"
  shows "keys_disjoint (store_set k v ttl s)"
proof -
  have "data s k' \<noteq> Some (next_addr s)" for k'
    using addr_ok_fresh [OF assms(1)] by fastforce
  then show ?thesis using assms(2) by (auto simp: keys_disjoint_def store_set_eq)
qed

lemma wf_complete_get:
  assumes w: "wf_store s" and j: "jobs s j = Some (GetLoad k a p l)"
  shows "wf_store (complete j r s)"
proof -
  note parts = wf_partsD [OF w]
  obtain ea where ea: "heap s a = Some ea" "loading ea = Some p"
    using wf_job_addr [OF w j] by blast
  have aN: "a < next_addr s" using parts(1) ea by (auto simp: addr_ok_def intro: fresh_above_dom)
  let ?s0 = "s\<lparr>jobs := (jobs s)(j := None)\<rparr>"
  have h0: "\<forall>a' e' q. heap ?s0 a' = Some e' \<longrightarrow> loading e' = Some q \<longrightarrow> promises s q \<noteq> None"
    using parts(6) by (simp add: handles_ok_def)
  show ?thesis
  proof (cases r)
    case (Rejects err)
    show ?thesis
      unfolding Rejects complete_get_rejects [OF j]
    proof (rule wf_retire [OF w j ea, where m = ?s0])
      show "Rejected err \<noteq> Pending" by simp
    qed (use parts ea h0 in \<open>simp_all add: heap_clear_loading keys_disjoint_def addr_ok_def\<close>)
  next
    case (Resolves v)
    let ?m = "store_set k v None ?s0"
    have hm: "heap ?m = (heap s)(next_addr s \<mapsto> set_entry ?s0 k v None)"
      by (simp add: store_set_eq)
    have "loading (set_entry ?s0 k v None) = Some q \<Longrightarrow> promises s q \<noteq> None" for q
      using w by (auto simp: set_entry_def spread_def split: option.splits dest: wf_current_handle)
    then have hm': "\<forall>a' e' q. heap ?m a' = Some e' \<longrightarrow> loading e' = Some q \<longrightarrow> promises s q \<noteq> None"
      using parts(6) hm by (auto simp: handles_ok_def)
    have ok: "addr_ok ?m" using parts(1) by (simp add: addr_ok_store_set)
    have kd: "keys_disjoint ?m" using parts(1,2)
      by (intro keys_disjoint_store_set) (simp_all add: addr_ok_def keys_disjoint_def)
    show ?thesis
      unfolding Resolves complete_get_resolves [OF j]
    proof (rule wf_retire [OF w j ea, where m = ?m])
      show "Fulfilled v \<noteq> Pending" by simp
    qed (use ok kd hm hm' ea aN in \<open>simp_all add: heap_clear_loading\<close>)
  qed
qed

lemma wf_unhandled: "wf_store s \<Longrightarrow> wf_store (s\<lparr>unhandled := x\<rparr>)"
  unfolding wf_store_def addr_ok_def keys_disjoint_def handles_ok_def jobs_ok_def pending_ok_def
    jobs_unique_def
  by simp

lemma wf_drop_refresh_job:
  assumes w: "wf_store s" and j: "jobs s j = Some (RefreshLoad k l)"
  shows "wf_store (s\<lparr>jobs := (jobs s)(j := None)\<rparr>)" (is "wf_store ?t")
proof -
  note parts = wf_partsD [OF w]
  have same: "(jobs ?t j' = Some (GetLoad k' a' p' l')) = (jobs s j' = Some (GetLoad k' a' p' l'))"
    for j' k' a' p' l'
    using j by auto
  have "jobs_ok ?t" using parts(7) unfolding jobs_ok_def same by simp
  moreover have "pending_ok ?t" using parts(8) unfolding pending_ok_def same by simp
  moreover have "jobs_unique ?t" using parts(9) unfolding jobs_unique_def same by simp
  moreover have "fresh_above (jobs ?t) (next_jid ?t)" using parts(4) by (simp add: fresh_above_remove)
  ultimately show ?thesis
    using parts by (simp add: wf_store_def addr_ok_def keys_disjoint_def handles_ok_def)
qed

lemma wf_complete [wf_intros]: "wf_store s \<Longrightarrow> wf_store (complete j r s)"
proof (cases "jobs s j")
  case (Some jb)
  assume w: "wf_store s"
  show ?thesis
  proof (cases jb)
    case (GetLoad k a p l)
    with Some w show ?thesis by (simp add: wf_complete_get)
  next
    case (RefreshLoad k l)
    with Some w have w0: "wf_store (s\<lparr>jobs := (jobs s)(j := None)\<rparr>)"
      by (simp add: wf_drop_refresh_job)
    then have "wf_store (s\<lparr>jobs := (jobs s)(j := None), unhandled := unhandled s @ [e]\<rparr>)" for e
      using wf_unhandled [OF w0] by simp
    with w0 Some RefreshLoad show ?thesis
      by (cases r) (simp_all add: complete_def wf_store_set)
  qed
qed (simp add: complete_def)

lemma wf_step [wf_intros]: "wf_store s \<Longrightarrow> wf_store (step x s)"
  by (cases x) (simp_all add: wf_store_get wf_store_set wf_setLoader wf_setAutoRefresh
      wf_store_delete wf_complete wf_fire wf_advance)

lemma reachable_wf: "reachable s \<Longrightarrow> wf_store s"
  by (induction rule: reachable.induct) (simp_all add: wf_init wf_step)

lemma reachable_run: "reachable s \<Longrightarrow> reachable (run xs s)"
  by (induction xs arbitrary: s) (simp_all add: reachable.step)

lemma store_get_Await_handle:
  assumes "fst (store_get k lo s) = Await p"
  shows "\<exists>a e. heap (snd (store_get k lo s)) a = Some e \<and> loading e = Some p"
proof -
  have start: "\<exists>a' e'. heap (snd (start_load k lo a e t)) a' = Some e' \<and> loading e' = Some p"
    if "fst (start_load k lo a e t) = Await p" "heap t a = Some e" for a e t
    using that by (auto simp: start_load_def Let_def split: option.splits)
  show ?thesis
  proof (cases "entry_at s k")
    case None
    with assms show ?thesis by (simp add: store_get_absent start)
  next
    case (Some ae)
    then obtain a e where ae: "entry_at s k = Some (a, e)" by (cases ae) auto
    then have "heap s a = Some e" by (simp add: entry_at_def split: option.splits)
    with ae assms show ?thesis
      by (cases "isExpired s e"; cases "val e = Undefined")
         (simp_all add: store_get_expired store_get_live store_get_cached start)
  qed
qed

lemma complete_settles:
  "jobs s j = Some (GetLoad k a p l) \<Longrightarrow> promises (complete j r s) p \<noteq> Some Pending"
  by (cases r) (simp_all add: complete_get_resolves complete_get_rejects)

section \<open>Properties\<close>

text \<open>
  C19. Every run of the event loop from a new store, through any sequence of caller
  operations, load completions, timer ticks and clock advances, ends in a well-formed
  state.
\<close>

theorem run_wf_store: "wf_store (run xs (init_store t0 thr))"
  by (rule reachable_wf [OF reachable_run [OF reachable.init]])

text \<open>
  C20. In every reachable state at most one load started by \<open>get\<close> is in flight per
  entry object: two pending loads that captured the same object are the same load.
\<close>

theorem one_load_per_entry:
  assumes "reachable s" "jobs s j1 = Some (GetLoad k1 a p1 l1)" "jobs s j2 = Some (GetLoad k2 a p2 l2)"
  shows "j1 = j2"
proof (rule ccontr)
  assume "j1 \<noteq> j2"
  with wf_job_other [OF reachable_wf [OF assms(1)] assms(2,3)] show False by simp
qed

text \<open>
  C21. No caller waits on a promise nobody settles: the promise a \<open>get\<close> returns is
  allocated, and while it is pending it belongs to a load whose completion, with any
  outcome, settles it.
\<close>

theorem get_waiters_settled:
  assumes "reachable s" "fst (store_get k lo s) = Await p"
  shows "promises (snd (store_get k lo s)) p \<noteq> None \<and>
         (promises (snd (store_get k lo s)) p = Some Pending \<longrightarrow>
           (\<exists>j k' a l. jobs (snd (store_get k lo s)) j = Some (GetLoad k' a p l) \<and>
              (\<forall>r. promises (complete j r (snd (store_get k lo s))) p \<noteq> Some Pending)))"
proof -
  let ?t = "snd (store_get k lo s)"
  have w: "wf_store ?t" using reachable_wf [OF assms(1)] by (rule wf_store_get)
  obtain a e where "heap ?t a = Some e" "loading e = Some p"
    using store_get_Await_handle [OF assms(2)] by blast
  with w have alloc: "promises ?t p \<noteq> None" by (rule wf_handle)
  have "\<exists>j k' a l. jobs ?t j = Some (GetLoad k' a p l) \<and> (\<forall>r. promises (complete j r ?t) p \<noteq> Some Pending)"
    if "promises ?t p = Some Pending"
  proof -
    from that wf_partsD(8) [OF w] obtain j k' a l where "jobs ?t j = Some (GetLoad k' a p l)"
      by (auto simp: pending_ok_def)
    moreover from this have "\<forall>r. promises (complete j r ?t) p \<noteq> Some Pending"
      by (metis complete_settles)
    ultimately show ?thesis by blast
  qed
  with alloc show ?thesis by blast
qed


section \<open>Witnesses\<close>

lemma one_load_per_entry_witness:
  "jobs (run [Get ''k'' (Some 1)] (init_store 0 Map.empty)) 0 = Some (GetLoad ''k'' 0 0 1) \<and> (0::nat) = 0"
proof -
  have j: "jobs (run [Get ''k'' (Some 1)] (init_store 0 Map.empty)) 0 = Some (GetLoad ''k'' 0 0 1)"
    by (simp add: store_eval)
  show ?thesis using one_load_per_entry [OF reachable_run [OF reachable.init] j j] j by simp
qed

lemma get_waiters_settled_witness:
  "promises (snd (store_get ''k'' None (run [Get ''k'' (Some 1)] (init_store 0 Map.empty)))) 0 = Some Pending"
proof -
  let ?s = "run [Get ''k'' (Some 1)] (init_store 0 Map.empty)"
  have a: "fst (store_get ''k'' None ?s) = Await 0" by (simp add: store_eval)
  have "promises (snd (store_get ''k'' None ?s)) 0 \<noteq> None"
    using get_waiters_settled [OF reachable_run [OF reachable.init] a] by blast
  then show ?thesis by (simp add: store_eval)
qed
end
