(* ===== verification/Store_Spec.thy ===== *)
theory Store_Spec
  imports Store_Invariant
begin

text \<open>
  An abstract specification of what the Store holds, and the proof that the detailed
  model implements it. Abstractly the Store is a clock and a finite map from keys to a
  value with an optional deadline; \<open>set\<close> writes a value and its deadline, \<open>delete\<close>
  removes a key, a finished load writes its value with no deadline, \<open>get\<close> removes a
  key whose deadline has passed, time advances, and every other step (registering
  loaders, starting loads, failed loads, timer ticks) leaves the map alone. A read sees
  a value exactly when the key is in the map and its deadline has not passed.

  The abstraction forgets entry objects, promises, loads in flight and timers: it is
  the part of the state a caller observes through the values \<open>get\<close> returns.
\<close>

section \<open>The abstract cache\<close>

type_synonym acache = "time \<times> (key \<Rightarrow> (jsval \<times> time option) option)"

text \<open>A deadline has passed when the clock is beyond it (the test of \<open>isExpired\<close>).\<close>

fun past :: "time \<Rightarrow> time option \<Rightarrow> bool" where
  "past now None = False"
| "past now (Some t) = (now > t)"

datatype aop =
    AGet key
  | ASet key jsval "int option"
  | ADelete key
  | ALoaded key jsval
  | ATick nat
  | ASkip

fun abs_step :: "aop \<Rightarrow> acache \<Rightarrow> acache" where
  "abs_step (AGet k) (now, m) =
     (now, case m k of Some (v, dl) \<Rightarrow> if past now dl then m(k := None) else m | None \<Rightarrow> m)"
| "abs_step (ASet k v ttl) (now, m) =
     (now, m(k := if v = Undefined then None else Some (v, ttl_deadline now ttl)))"
| "abs_step (ADelete k) (now, m) = (now, m(k := None))"
| "abs_step (ALoaded k v) (now, m) = (now, m(k := if v = Undefined then None else Some (v, None)))"
| "abs_step (ATick d) (now, m) = (now + int d, m)"
| "abs_step ASkip c = c"

fun abs_read :: "acache \<Rightarrow> key \<Rightarrow> jsval option" where
  "abs_read (now, m) k = (case m k of Some (v, dl) \<Rightarrow> if past now dl then None else Some v | None \<Rightarrow> None)"

section \<open>Abstraction of the detailed state\<close>

definition stored :: "store \<Rightarrow> key \<Rightarrow> (jsval \<times> time option) option" where
  "stored s k =
     (case current s k of
        None \<Rightarrow> None
      | Some e \<Rightarrow> if val e = Undefined then None else Some (val e, expiresAt e))"

definition abs_store :: "store \<Rightarrow> acache" where
  "abs_store s = (clock s, stored s)"

text \<open>Which abstract step a detailed step performs; for a settling load this depends
  on which load it is.\<close>

fun abs_op :: "store \<Rightarrow> op \<Rightarrow> aop" where
  "abs_op s (Get k lo) = AGet k"
| "abs_op s (Set k v ttl) = ASet k v ttl"
| "abs_op s (SetLoader k l ttl) = ASkip"
| "abs_op s (SetAutoRefresh k l i) = ASkip"
| "abs_op s (Delete k) = ADelete k"
| "abs_op s (Complete j r) =
     (case (jobs s j, r) of
        (Some (GetLoad k a p l), Resolves v) \<Rightarrow> ALoaded k v
      | (Some (RefreshLoad k l), Resolves v) \<Rightarrow> ALoaded k v
      | _ \<Rightarrow> ASkip)"
| "abs_op s (Fire t) = ASkip"
| "abs_op s (Advance d) = ATick d"

text \<open>The abstract trace of a run of the detailed machine, and the abstract machine
  run on such a trace.\<close>

fun abs_trace :: "op list \<Rightarrow> store \<Rightarrow> aop list" where
  "abs_trace [] s = []"
| "abs_trace (x # xs) s = abs_op s x # abs_trace xs (step x s)"

fun abs_run :: "aop list \<Rightarrow> acache \<Rightarrow> acache" where
  "abs_run [] c = c"
| "abs_run (y # ys) c = abs_run ys (abs_step y c)"

section \<open>Helper lemmas\<close>

lemma stored_frame: "current s' = current s \<Longrightarrow> stored s' = stored s"
  by (simp add: stored_def fun_eq_iff)

lemma stored_put_entry:
  "addr_ok s \<Longrightarrow>
   stored (put_entry k e s) = (stored s)(k := if val e = Undefined then None else Some (val e, expiresAt e))"
  by (simp add: stored_def fun_eq_iff current_put_entry)

text \<open>Writing \<open>loading\<close> into an object, through any alias, changes no stored value.\<close>

lemma stored_heap_loading:
  assumes "heap s a = Some e" "data s' = data s" "heap s' = (heap s)(a \<mapsto> e\<lparr>loading := x\<rparr>)"
  shows "stored s' = stored s"
proof -
  have "stored s' k = stored s k" for k
    using assms by (cases "data s k") (auto simp: stored_def current_def entry_at_def)
  then show ?thesis by (simp add: fun_eq_iff)
qed

lemma stored_invoked [simp]: "stored (s\<lparr>invoked := x\<rparr>) = stored s"
  by (rule stored_frame) (rule current_frame; simp)

lemma stored_start_load:
  assumes "heap s a = Some e"
  shows "stored (snd (start_load k lo a e s)) = stored s"
proof (cases "loading e")
  case None
  then show ?thesis
    by (cases "resolve_loader lo e")
       (simp_all add: start_load_def Let_def stored_heap_loading [OF assms] split: option.split)
qed (simp add: start_load_def)

lemma stored_clear_loading [simp]: "stored (clear_loading a s) = stored s"
  by (cases "heap s a") (simp_all add: clear_loading_def stored_heap_loading)

lemma stored_settle [simp]: "stored (settle p st s) = stored s"
  by (rule stored_frame) (rule current_frame; simp)

lemma stored_emit [simp]: "stored (emit ev s) = stored s"
  by (rule stored_frame) simp

lemma stored_clear_refresh [simp]: "stored (clear_refresh eo s) = stored s"
  by (rule stored_frame) simp

lemma stored_call_loader [simp]: "stored (call_loader jb k l s) = stored s"
  by (rule stored_frame) simp

lemma stored_refresh [simp]: "stored (refresh k l s) = stored s"
  by (rule stored_frame) simp

lemma stored_jobs_upd [simp]: "stored (s\<lparr>jobs := x\<rparr>) = stored s"
  by (rule stored_frame) simp

lemma stored_unhandled [simp]: "stored (s\<lparr>unhandled := x\<rparr>) = stored s"
  by (rule stored_frame) (rule current_frame; simp)

lemma stored_store_set:
  "addr_ok s \<Longrightarrow>
   stored (store_set k v ttl s) = (stored s)(k := if v = Undefined then None else Some (v, ttl_deadline (clock s) ttl))"
  by (simp add: store_set_eq stored_put_entry)

lemma stored_store_delete: "stored (store_delete k s) = (stored s)(k := None)"
  by (simp add: stored_def fun_eq_iff current_store_delete)

lemma stored_empty_put:
  "addr_ok s \<Longrightarrow> stored (put_entry k empty_entry s) = (stored s)(k := None)"
  by (simp add: stored_put_entry)

lemma stored_keep_value:
  "addr_ok s \<Longrightarrow> val e = val (spread (current s k)) \<Longrightarrow> expiresAt e = expiresAt (spread (current s k)) \<Longrightarrow>
   stored (put_entry k e s) = stored s"
  by (auto simp: stored_put_entry stored_def spread_def fun_eq_iff split: option.split)

lemma stored_current:
  "current s k = Some e \<Longrightarrow> stored s k = (if val e = Undefined then None else Some (val e, expiresAt e))"
  "current s k = None \<Longrightarrow> stored s k = None"
  by (simp_all add: stored_def)

lemma isExpired_past: "isExpired s e = past (clock s) (expiresAt e)"
  by (cases "expiresAt e") (simp_all add: isExpired_def)

lemma stored_keep_frame:
  assumes "addr_ok t" "current t = current s"
  shows "stored (put_entry k ((spread (current t k))\<lparr>loader := x, refreshInterval := y\<rparr>) t) = stored s"
    "stored (put_entry k ((spread (current t k))\<lparr>loader := x\<rparr>) t) = stored s"
  using stored_keep_value [OF assms(1)] stored_frame [OF assms(2)] by simp_all

lemma stored_setAutoRefresh: "addr_ok s \<Longrightarrow> stored (setAutoRefresh k l i s) = stored s"
proof -
  assume ok: "addr_ok s"
  let ?t = "(refresh k l s)\<lparr>intervals := (intervals s)(next_tid s \<mapsto> (k, l, i)), next_tid := Suc (next_tid s)\<rparr>"
  have t1: "addr_ok ?t" using addr_ok_refresh_frame [OF ok] .
  have t2: "current ?t = current s" by (rule current_frame) (simp_all add:)
  note t = t1 t2
  then show ?thesis using stored_keep_frame(1) [OF t] by (simp add: setAutoRefresh_eq)
qed

lemma stored_setLoader: "addr_ok s \<Longrightarrow> stored (setLoader k l ttl s) = stored s"
proof -
  assume ok: "addr_ok s"
  let ?t = "clear_refresh (current s k) s"
  let ?u = "put_entry k ((spread (current ?t k))\<lparr>loader := Some l\<rparr>) ?t"
  have t: "addr_ok ?t" "current ?t = current s"
    using ok by (simp_all add: addr_ok_clear_refresh)
  have u: "stored ?u = stored s" "addr_ok ?u"
    using stored_keep_frame(2) [OF t] addr_ok_put_entry [OF t(1)] by simp_all
  show ?thesis
  proof (cases "num_truthy ttl")
    case True
    then obtain i where "ttl = Some i" "i \<noteq> 0" by (cases ttl) auto
    with u show ?thesis by (simp add: setLoader_refresh stored_setAutoRefresh)
  next
    case False
    with u show ?thesis by (simp add: setLoader_no_refresh)
  qed
qed

lemma stored_store_get:
  assumes ok: "addr_ok s"
  shows "stored (snd (store_get k lo s)) = snd (abs_step (AGet k) (abs_store s))"
proof (cases "entry_at s k")
  case None
  have "stored (snd (store_get k lo s)) = (stored s)(k := None)"
    using None ok by (simp add: store_get_absent stored_start_load stored_empty_put)
  moreover have "stored s k = None" using None by (simp add: stored_current current_def)
  ultimately show ?thesis by (simp add: abs_store_def fun_upd_idem)
next
  case (Some ae)
  then obtain a e where ae: "entry_at s k = Some (a, e)" by (cases ae) auto
  then have c: "current s k = Some e" and h: "heap s a = Some e"
    by (auto simp: current_def entry_at_def split: option.splits)
  show ?thesis
  proof (cases "isExpired s e")
    case True
    have "stored (snd (store_get k lo s)) = (stored s)(k := None)"
      using ae True addr_ok_store_delete [OF ok]
      by (simp add: store_get_expired stored_start_load stored_empty_put stored_store_delete)
    with True c show ?thesis
      by (simp add: abs_store_def stored_current isExpired_past fun_upd_idem)
  next
    case False
    then show ?thesis using ae c h
      by (cases "val e = Undefined")
         (simp_all add: store_get_live store_get_cached stored_start_load abs_store_def
           stored_current isExpired_past)
  qed
qed

lemma stored_complete:
  assumes "addr_ok s"
  shows "stored (complete j r s) = snd (abs_step (abs_op s (Complete j r)) (abs_store s))"
proof (cases "jobs s j")
  case None
  then show ?thesis by (simp add: complete_def abs_store_def)
next
  case (Some jb)
  then show ?thesis using assms
    by (cases jb; cases r) (simp_all add: complete_def stored_store_set abs_store_def)
qed

lemma fire_frame: "clock (fire t s) = clock s" "stored (fire t s) = stored s"
  by (simp_all add: fire_def split: option.split)

lemma stored_advance [simp]: "stored (advance d s) = stored s"
  by (rule stored_frame) (rule current_frame; simp)

text \<open>The detailed step simulates the abstract one, from any state with sound
  addresses.\<close>

lemma abs_store_step:
  assumes "addr_ok s"
  shows "abs_store (step x s) = abs_step (abs_op s x) (abs_store s)"
proof (cases x)
  case (Get k lo)
  then show ?thesis using stored_store_get [OF assms, of k lo] by (simp add: abs_store_def)
next
  case (Complete j r)
  then show ?thesis using stored_complete [OF assms, of j r]
    by (cases "jobs s j") (simp_all add: abs_store_def split: job.split result.split)
qed (use assms in \<open>simp_all add: abs_store_def stored_store_set stored_store_delete
       stored_setLoader stored_setAutoRefresh fire_frame\<close>)

lemma abs_store_run:
  "wf_store s \<Longrightarrow> abs_store (run xs s) = abs_run (abs_trace xs s) (abs_store s)"
proof (induction xs arbitrary: s)
  case (Cons x xs)
  then show ?case using abs_store_step [OF wf_partsD(1) [OF Cons.prems], of x] wf_step [OF Cons.prems, of x]
    by simp
qed simp

lemma abs_store_init [simp]: "abs_store (init_store t0 thr) = (t0, Map.empty)"
  by (simp add: abs_store_def stored_def current_def entry_at_def init_store_def fun_eq_iff)

lemma start_load_not_value: "fst (start_load k lo a e s) \<noteq> Value v"
  by (simp add: start_load_def Let_def split: option.split)

text \<open>\<open>get\<close> answers synchronously with a value exactly when the abstract cache has a
  live value for the key.\<close>

lemma get_value_abs_read:
  "fst (store_get k lo s) = Value v \<longleftrightarrow> abs_read (abs_store s) k = Some v"
proof (cases "entry_at s k")
  case None
  then show ?thesis
    by (simp add: store_get_absent start_load_not_value abs_store_def stored_current current_def)
next
  case (Some ae)
  then obtain a e where ae: "entry_at s k = Some (a, e)" by (cases ae) auto
  then have c: "current s k = Some e" by (simp add: current_def)
  show ?thesis
    using ae c by (cases "isExpired s e"; cases "val e = Undefined")
      (auto simp: store_get_expired store_get_live store_get_cached start_load_not_value
         abs_store_def stored_current isExpired_past)
qed

section \<open>Properties\<close>

text \<open>
  C23. Refinement: after any sequence of operations from the empty Store, the values
  and deadlines the Store holds (and its clock) are those the abstract cache computes
  on the abstract trace of the run: \<open>set\<close> writes a value and its deadline, \<open>delete\<close>
  and a \<open>get\<close> of an expired key remove it, a resolved load writes its value with no
  deadline, and loader registration, timers and failed loads change nothing.
\<close>

theorem run_refines_spec:
  "abs_store (run xs (init_store t0 thr)) = abs_run (abs_trace xs (init_store t0 thr)) (t0, Map.empty)"
  using abs_store_run [OF wf_init, of xs t0] by simp

text \<open>
  C24. Observation: after any sequence of operations, \<open>get\<close> answers synchronously
  with a value exactly when the abstract cache holds that value for the key with a
  deadline that has not passed; otherwise it starts or joins a load, or fails.
\<close>

theorem get_reads_spec:
  "fst (store_get k lo (run xs (init_store t0 thr))) = Value v \<longleftrightarrow>
   abs_read (abs_run (abs_trace xs (init_store t0 thr)) (t0, Map.empty)) k = Some v"
  using get_value_abs_read [of k lo "run xs (init_store t0 thr)" v] abs_store_run [OF wf_init, of xs t0]
  by simp

end
