(* ===== verification/Events.thy ===== *)
theory Events
  imports Js_Values
begin

text \<open>
  The module-level listener registry of \<open>src/src/events.ts\<close>: a record of handler
  arrays, one per event name, with \<open>on\<close> (push), \<open>emit\<close> (call every handler of the
  event, in array order, with the payload) and \<open>off\<close> (replace the array by the
  handlers that are not the given one, compared by reference). Handlers are opaque
  function objects, represented by their identity; a call of a handler is recorded in
  a log of calls instead of being executed.
\<close>

section \<open>State and operations\<close>

text \<open>\<open>MarketEventName\<close> of \<open>types.ts\<close>.\<close>

datatype ev_name = EvSet | EvDelete | EvExpire | EvClear

text \<open>The payload \<open>{key, value?, ttl?}\<close> of \<open>MarketEventHandler\<close>; an absent
  \<open>value\<close> is \<open>undefined\<close>.\<close>

record payload =
  pkey :: key
  pvalue :: jsval
  pttl :: "int option"

type_synonym hid = nat

record bus =
  listeners :: "ev_name \<Rightarrow> hid list"
  calls :: "(hid \<times> payload) list"

definition init_bus :: bus where
  "init_bus = \<lparr>listeners = (\<lambda>e. []), calls = []\<rparr>"

definition on :: "ev_name \<Rightarrow> hid \<Rightarrow> bus \<Rightarrow> bus" where
  "on e h b = b\<lparr>listeners := (listeners b)(e := listeners b e @ [h])\<rparr>"

definition emit_bus :: "ev_name \<Rightarrow> payload \<Rightarrow> bus \<Rightarrow> bus" where
  "emit_bus e p b = b\<lparr>calls := calls b @ map (\<lambda>h. (h, p)) (listeners b e)\<rparr>"

definition off :: "ev_name \<Rightarrow> hid \<Rightarrow> bus \<Rightarrow> bus" where
  "off e h b = b\<lparr>listeners := (listeners b)(e := filter (\<lambda>f. f \<noteq> h) (listeners b e))\<rparr>"

text \<open>The registry operations as commands, for sequences of them.\<close>

datatype bus_op = On ev_name hid | Emit ev_name payload | Off ev_name hid

fun bus_step :: "bus_op \<Rightarrow> bus \<Rightarrow> bus" where
  "bus_step (On e h) b = on e h b"
| "bus_step (Emit e p) b = emit_bus e p b"
| "bus_step (Off e h) b = off e h b"

definition bus_run :: "bus_op list \<Rightarrow> bus \<Rightarrow> bus" where
  "bus_run xs b = fold bus_step xs b"

text \<open>The calls an \<open>emit\<close> makes.\<close>

definition emitted_by :: "ev_name \<Rightarrow> payload \<Rightarrow> bus \<Rightarrow> (hid \<times> payload) list" where
  "emitted_by e p b = drop (length (calls b)) (calls (emit_bus e p b))"

section \<open>Helper lemmas\<close>

lemma bus_fields [simp]:
  "listeners (on e h b) = (listeners b)(e := listeners b e @ [h])"
  "calls (on e h b) = calls b"
  "listeners (emit_bus e p b) = listeners b"
  "calls (emit_bus e p b) = calls b @ map (\<lambda>h. (h, p)) (listeners b e)"
  "calls (off e h b) = calls b"
  by (simp_all add: on_def emit_bus_def off_def)

lemma off_listeners [simp]:
  "listeners (off e h b) = (listeners b)(e := filter (\<lambda>f. f \<noteq> h) (listeners b e))"
  by (simp add: off_def)

lemma emitted_by_eq: "emitted_by e p b = map (\<lambda>h. (h, p)) (listeners b e)"
  by (simp add: emitted_by_def)

lemma bus_run_simps [simp]:
  "bus_run [] b = b" "bus_run (x # xs) b = bus_run xs (bus_step x b)"
  by (simp_all add: bus_run_def)

lemma filter_neq_id: "h \<notin> set xs \<Longrightarrow> filter (\<lambda>f. f \<noteq> h) xs = xs"
  by (induction xs) auto

lemma listeners_other [simp]:
  "e' \<noteq> e \<Longrightarrow> listeners (on e h b) e' = listeners b e'"
  "e' \<noteq> e \<Longrightarrow> listeners (off e h b) e' = listeners b e'"
  by simp_all

lemma listeners_bus_run_on: "listeners (bus_run (map (On e) hs) b) e = listeners b e @ hs"
  by (induction hs arbitrary: b) simp_all

text \<open>A handler absent from an event's array stays absent through any commands that do
  not register it for that event.\<close>

lemma absent_stays_absent:
  "h \<notin> set (listeners b e) \<Longrightarrow> On e h \<notin> set xs \<Longrightarrow> h \<notin> set (listeners (bus_run xs b) e)"
proof (induction xs arbitrary: b)
  case (Cons x xs)
  have "h \<notin> set (listeners (bus_step x b) e)"
    using Cons.prems by (cases x) (auto simp: fun_upd_apply)
  then show ?case using Cons by simp
qed simp

section \<open>Properties\<close>

text \<open>
  C26. \<open>off(event, h)\<close> removes every registration of \<open>h\<close> for the event, however
  many times it was added: no later \<open>emit\<close> of that event calls \<open>h\<close> until \<open>h\<close> is
  registered for it again.
\<close>

theorem off_silences_handler:
  assumes "On e h \<notin> set xs"
  shows "h \<notin> fst ` set (emitted_by e p (bus_run xs (off e h b)))"
proof -
  have "h \<notin> set (listeners (bus_run xs (off e h b)) e)"
    using assms by (intro absent_stays_absent) simp_all
  then show ?thesis by (auto simp: emitted_by_eq)
qed

text \<open>
  C27. Round trip: registering a handler that was not registered and then removing it
  gives back the registry as it was.
\<close>

theorem on_off_roundtrip:
  assumes "h \<notin> set (listeners b e)"
  shows "off e h (on e h b) = b"
  using assms by (simp add: on_def off_def filter_neq_id)

text \<open>
  C28. \<open>emit\<close> calls the handlers of the event in the order they were registered,
  each once per registration (\<open>on\<close> does not deduplicate, so a handler added twice is
  called twice), all with the same payload.
\<close>

theorem emit_in_registration_order:
  "emitted_by e p (bus_run (map (On e) hs) init_bus) = map (\<lambda>h. (h, p)) hs"
  by (simp add: emitted_by_eq listeners_bus_run_on init_bus_def)

section \<open>Witnesses\<close>

lemma off_silences_handler_witness:
  "On EvSet 1 \<notin> set [On EvSet 2, Emit EvSet \<lparr>pkey = ''k'', pvalue = Num 1, pttl = None\<rparr>] \<and>
   1 \<notin> fst ` set (emitted_by EvSet \<lparr>pkey = ''k'', pvalue = Num 2, pttl = None\<rparr>
     (bus_run [On EvSet 2, Emit EvSet \<lparr>pkey = ''k'', pvalue = Num 1, pttl = None\<rparr>]
       (off EvSet 1 (on EvSet 1 (on EvSet 1 init_bus)))))"
  using off_silences_handler [of EvSet 1 "[On EvSet 2, Emit EvSet \<lparr>pkey = ''k'', pvalue = Num 1, pttl = None\<rparr>]"
      "\<lparr>pkey = ''k'', pvalue = Num 2, pttl = None\<rparr>" "on EvSet 1 (on EvSet 1 init_bus)"]
  by simp

lemma on_off_roundtrip_witness:
  "1 \<notin> set (listeners (on EvSet 2 init_bus) EvSet) \<and> off EvSet 1 (on EvSet 1 (on EvSet 2 init_bus)) = on EvSet 2 init_bus"
  using on_off_roundtrip [of 1 "on EvSet 2 init_bus" EvSet] by (simp add: init_bus_def)

end
