(* ===== verification/Ttl.thy ===== *)
theory Ttl
  imports Events
begin

text \<open>
  The TTL helper of \<open>src/src/ttl.ts\<close>: a module-level \<open>Map\<close> from keys to
  \<open>{expiresAt, timeoutId}\<close>, \<open>setTTL\<close>, which schedules a timeout that deletes the
  key, calls \<open>onExpire\<close> and emits \<open>expire\<close> on the event bus of \<open>events.ts\<close>, and
  \<open>clearTTL\<close>, which cancels the timeout recorded for the key. Node's timer table is
  part of the state: each pending timeout records its key, TTL, callback and due time,
  and fires only once the clock has reached the due time (Node runs a delay below 1
  ms or above \<open>2^31 - 1\<close> ms as 1 ms). Callbacks are opaque and recorded in a log.
\<close>

section \<open>State and operations\<close>

type_synonym tmid = nat
type_synonym cbid = nat

text \<open>\<open>TTLItem\<close> of \<open>types.ts\<close>.\<close>

record ttl_item =
  item_expiresAt :: time
  timeoutId :: tmid

record ttl_state =
  ttlStore :: "key \<Rightarrow> ttl_item option"
  timeouts :: "tmid \<Rightarrow> (key \<times> int \<times> cbid \<times> time) option"
  next_tmid :: tmid
  tclock :: time
  onexpire_calls :: "cbid list"
  tbus :: bus

definition init_ttl :: "time \<Rightarrow> ttl_state" where
  "init_ttl t0 = \<lparr>ttlStore = Map.empty, timeouts = Map.empty, next_tmid = 0, tclock = t0,
                  onexpire_calls = [], tbus = init_bus\<rparr>"

text \<open>The delay Node's \<open>setTimeout\<close> actually waits.\<close>

definition timeout_delay :: "int \<Rightarrow> int" where
  "timeout_delay ms = (if ms < 1 \<or> 2147483647 < ms then 1 else ms)"

definition setTTL :: "key \<Rightarrow> int \<Rightarrow> cbid \<Rightarrow> ttl_state \<Rightarrow> ttl_state" where
  "setTTL k ttl cb s =
     (let expiresAt = tclock s + ttl; t = next_tmid s;
          s1 = s\<lparr>timeouts := (timeouts s)(t \<mapsto> (k, ttl, cb, tclock s + timeout_delay ttl)),
                 next_tmid := Suc t\<rparr>
      in s1\<lparr>ttlStore := (ttlStore s1)(k \<mapsto> \<lparr>item_expiresAt = expiresAt, timeoutId = t\<rparr>)\<rparr>)"

definition clearTTL :: "key \<Rightarrow> ttl_state \<Rightarrow> ttl_state" where
  "clearTTL k s =
     (case ttlStore s k of
        None \<Rightarrow> s
      | Some item \<Rightarrow> s\<lparr>timeouts := (timeouts s)(timeoutId item := None),
                        ttlStore := (ttlStore s)(k := None)\<rparr>)"

text \<open>The callback of the timeout: \<open>ttlStore.delete(key); onExpire(); emit("expire",
  {key, ttl})\<close>. Node drops a timeout once it has run.\<close>

definition fire_timeout :: "tmid \<Rightarrow> ttl_state \<Rightarrow> ttl_state" where
  "fire_timeout t s =
     (case timeouts s t of
        None \<Rightarrow> s
      | Some (k, ttl, cb, due) \<Rightarrow>
          if due \<le> tclock s then
            s\<lparr>timeouts := (timeouts s)(t := None), ttlStore := (ttlStore s)(k := None),
              onexpire_calls := onexpire_calls s @ [cb],
              tbus := emit_bus EvExpire \<lparr>pkey = k, pvalue = Undefined, pttl = Some ttl\<rparr> (tbus s)\<rparr>
          else s)"

definition tick :: "nat \<Rightarrow> ttl_state \<Rightarrow> ttl_state" where
  "tick d s = s\<lparr>tclock := tclock s + int d\<rparr>"

datatype ttl_op = SetTTL key int cbid | ClearTTL key | FireTimeout tmid | Tick nat

fun ttl_step :: "ttl_op \<Rightarrow> ttl_state \<Rightarrow> ttl_state" where
  "ttl_step (SetTTL k ttl cb) s = setTTL k ttl cb s"
| "ttl_step (ClearTTL k) s = clearTTL k s"
| "ttl_step (FireTimeout t) s = fire_timeout t s"
| "ttl_step (Tick d) s = tick d s"

definition ttl_run :: "ttl_op list \<Rightarrow> ttl_state \<Rightarrow> ttl_state" where
  "ttl_run xs s = fold ttl_step xs s"

text \<open>The invariant: timer identifiers are fresh from \<open>next_tmid\<close> on, and every item
  of the map names a pending timeout for its own key whose due time matches the item's
  \<open>expiresAt\<close> (up to the clamp of the delay).\<close>

definition ttl_wf :: "ttl_state \<Rightarrow> bool" where
  "ttl_wf s \<longleftrightarrow>
     fresh_above (timeouts s) (next_tmid s) \<and>
     (\<forall>k it. ttlStore s k = Some it \<longrightarrow>
        (\<exists>n cb due. timeouts s (timeoutId it) = Some (k, n, cb, due) \<and>
           item_expiresAt it = due - timeout_delay n + n))"

section \<open>Helper lemmas\<close>

lemma ttl_run_simps [simp]:
  "ttl_run [] s = s" "ttl_run (x # xs) s = ttl_run xs (ttl_step x s)"
  by (simp_all add: ttl_run_def)

lemma setTTL_fields [simp]:
  "ttlStore (setTTL k ttl cb s) = (ttlStore s)(k \<mapsto> \<lparr>item_expiresAt = tclock s + ttl, timeoutId = next_tmid s\<rparr>)"
  "timeouts (setTTL k ttl cb s) = (timeouts s)(next_tmid s \<mapsto> (k, ttl, cb, tclock s + timeout_delay ttl))"
  "next_tmid (setTTL k ttl cb s) = Suc (next_tmid s)"
  "tclock (setTTL k ttl cb s) = tclock s"
  "onexpire_calls (setTTL k ttl cb s) = onexpire_calls s"
  "tbus (setTTL k ttl cb s) = tbus s"
  by (simp_all add: setTTL_def Let_def)

lemma tick_fields [simp]:
  "ttlStore (tick d s) = ttlStore s" "timeouts (tick d s) = timeouts s"
  "next_tmid (tick d s) = next_tmid s" "tclock (tick d s) = tclock s + int d"
  "onexpire_calls (tick d s) = onexpire_calls s" "tbus (tick d s) = tbus s"
  by (simp_all add: tick_def)

lemma fire_due:
  "timeouts s t = Some (k, ttl, cb, due) \<Longrightarrow> due \<le> tclock s \<Longrightarrow>
   fire_timeout t s =
     s\<lparr>timeouts := (timeouts s)(t := None), ttlStore := (ttlStore s)(k := None),
       onexpire_calls := onexpire_calls s @ [cb],
       tbus := emit_bus EvExpire \<lparr>pkey = k, pvalue = Undefined, pttl = Some ttl\<rparr> (tbus s)\<rparr>"
  by (simp add: fire_timeout_def)

lemma fire_not_due:
  "timeouts s t = None \<or> (\<exists>k ttl cb due. timeouts s t = Some (k, ttl, cb, due) \<and> \<not> due \<le> tclock s) \<Longrightarrow>
   fire_timeout t s = s"
  by (auto simp: fire_timeout_def)

lemma timeout_delay_pos: "0 < n \<Longrightarrow> n \<le> 2147483647 \<Longrightarrow> timeout_delay n = n"
  by (simp add: timeout_delay_def)

lemma ttl_wfD:
  "ttl_wf s \<Longrightarrow> ttlStore s k = Some it \<Longrightarrow>
   \<exists>n cb due. timeouts s (timeoutId it) = Some (k, n, cb, due) \<and> item_expiresAt it = due - timeout_delay n + n"
  by (simp add: ttl_wf_def)

text \<open>A timer names one key, so two keys' items never share a timer.\<close>

lemma ttl_wf_timer_key:
  "ttl_wf s \<Longrightarrow> ttlStore s k' = Some it' \<Longrightarrow> timeouts s t = Some (k, x) \<Longrightarrow> k' \<noteq> k \<Longrightarrow>
   timeoutId it' \<noteq> t"
  by (auto dest: ttl_wfD [of s k'])

lemma ttl_wf_init: "ttl_wf (init_ttl t0)"
  by (simp add: ttl_wf_def init_ttl_def)

lemma ttl_wf_setTTL: "ttl_wf s \<Longrightarrow> ttl_wf (setTTL k n cb s)"
proof -
  assume wf: "ttl_wf s"
  then have fr: "fresh_above (timeouts s) (next_tmid s)" by (simp add: ttl_wf_def)
  have "timeoutId it \<noteq> next_tmid s" if "ttlStore s k' = Some it" for k' it
    using ttl_wfD [OF wf that] fresh_above_at [OF fr] by auto
  with wf fr show ?thesis by (auto simp: ttl_wf_def)
qed

lemma ttl_wf_clearTTL: "ttl_wf s \<Longrightarrow> ttl_wf (clearTTL k s)"
proof (cases "ttlStore s k")
  case (Some it)
  assume wf: "ttl_wf s"
  obtain n cb due where t: "timeouts s (timeoutId it) = Some (k, n, cb, due)"
    using ttl_wfD [OF wf Some] by blast
  have "timeoutId it' \<noteq> timeoutId it" if "ttlStore s k' = Some it'" "k' \<noteq> k" for k' it'
    using ttl_wf_timer_key [OF wf that(1) t that(2)] .
  with wf Some show ?thesis by (auto simp: ttl_wf_def clearTTL_def)
qed (simp add: clearTTL_def)

lemma ttl_wf_fire: "ttl_wf s \<Longrightarrow> ttl_wf (fire_timeout t s)"
proof (cases "timeouts s t")
  case (Some x)
  assume wf: "ttl_wf s"
  obtain k n cb due where t: "timeouts s t = Some (k, n, cb, due)" using Some by (cases x) auto
  have "timeoutId it' \<noteq> t" if "ttlStore s k' = Some it'" "k' \<noteq> k" for k' it'
    using ttl_wf_timer_key [OF wf that(1) t that(2)] .
  with wf t show ?thesis
    by (cases "due \<le> tclock s") (auto simp: ttl_wf_def fire_due fire_not_due)
qed (simp add: fire_timeout_def)

lemma ttl_wf_tick: "ttl_wf s \<Longrightarrow> ttl_wf (tick d s)"
  by (simp add: ttl_wf_def)

lemma ttl_wf_step: "ttl_wf s \<Longrightarrow> ttl_wf (ttl_step x s)"
  by (cases x) (simp_all add: ttl_wf_setTTL ttl_wf_clearTTL ttl_wf_fire ttl_wf_tick)

lemma ttl_wf_run: "ttl_wf s \<Longrightarrow> ttl_wf (ttl_run xs s)"
  by (induction xs arbitrary: s) (simp_all add: ttl_wf_step)

section \<open>Properties\<close>

text \<open>
  C29. \<open>setTTL\<close> on a key that already has a TTL does not clear the earlier timeout.
  When the earlier timeout comes due it deletes the key's new item, calls the earlier
  \<open>onExpire\<close> and emits \<open>expire\<close> with the earlier TTL, while the new timeout is
  still pending.
\<close>

theorem stale_timeout_deletes_new_item:
  assumes "timeout_delay n1 \<le> int d"
  shows "let s2 = tick d (setTTL k n2 cb2 (setTTL k n1 cb1 s)); s3 = fire_timeout (next_tmid s) s2 in
         ttlStore s2 k \<noteq> None \<and> ttlStore s3 k = None \<and>
         onexpire_calls s3 = onexpire_calls s @ [cb1] \<and>
         calls (tbus s3) = calls (tbus s) @
           map (\<lambda>h. (h, \<lparr>pkey = k, pvalue = Undefined, pttl = Some n1\<rparr>)) (listeners (tbus s) EvExpire) \<and>
         timeouts s3 (Suc (next_tmid s)) = Some (k, n2, cb2, tclock s + timeout_delay n2)"
  using assms by (simp add: Let_def fire_due)

text \<open>
  C30. After two \<open>setTTL\<close> calls for a key, \<open>clearTTL\<close> cancels only the later
  timeout: the earlier one stays pending and will still delete the key and call its
  \<open>onExpire\<close>.
\<close>

theorem clearTTL_misses_stale_timeout:
  "timeouts (clearTTL k (setTTL k n2 cb2 (setTTL k n1 cb1 s))) (next_tmid s) =
     Some (k, n1, cb1, tclock s + timeout_delay n1)"
  by (simp add: clearTTL_def)

text \<open>
  C31. \<open>clearTTL\<close> right after a single \<open>setTTL\<close> cancels it: the timer table is as
  before and the key has no item.
\<close>

theorem clearTTL_cancels_setTTL:
  assumes "ttl_wf s"
  shows "timeouts (clearTTL k (setTTL k n cb s)) = timeouts s \<and>
         ttlStore (clearTTL k (setTTL k n cb s)) = (ttlStore s)(k := None)"
proof -
  have "timeouts s (next_tmid s) = None" using assms by (simp add: ttl_wf_def)
  then show ?thesis by (simp add: clearTTL_def fun_upd_idem)
qed

text \<open>
  C32. In every state reached by \<open>setTTL\<close>, \<open>clearTTL\<close>, timeouts firing and time
  passing, every item of the TTL map names a pending timeout for its own key whose due
  time matches the item's \<open>expiresAt\<close>.
\<close>

theorem ttl_run_wf: "ttl_wf (ttl_run xs (init_ttl t0))"
  by (rule ttl_wf_run [OF ttl_wf_init])

text \<open>
  C33. Every key with an item is deleted in time: its timeout is due at the item's
  \<open>expiresAt\<close> (for a TTL Node does not clamp), and once the clock reaches the due
  time the timeout removes the key and calls its \<open>onExpire\<close>.
\<close>

theorem tracked_key_expires:
  assumes "ttl_wf s" "ttlStore s k = Some it"
  shows "\<exists>n cb due. timeouts s (timeoutId it) = Some (k, n, cb, due) \<and>
           (0 < n \<and> n \<le> 2147483647 \<longrightarrow> due = item_expiresAt it) \<and>
           (\<forall>d. due \<le> tclock s + int d \<longrightarrow>
              ttlStore (fire_timeout (timeoutId it) (tick d s)) k = None \<and>
              onexpire_calls (fire_timeout (timeoutId it) (tick d s)) = onexpire_calls s @ [cb])"
proof -
  obtain n cb due where t: "timeouts s (timeoutId it) = Some (k, n, cb, due)"
    and e: "item_expiresAt it = due - timeout_delay n + n"
    using ttl_wfD [OF assms] by blast
  have "ttlStore (fire_timeout (timeoutId it) (tick d s)) k = None \<and>
        onexpire_calls (fire_timeout (timeoutId it) (tick d s)) = onexpire_calls s @ [cb]"
    if "due \<le> tclock s + int d" for d
    using t that by (simp add: fire_due)
  with t e show ?thesis by (auto simp: timeout_delay_pos)
qed

text \<open>
  C39. Bounds of the timeout \<open>setTTL\<close> schedules: it is due between 1 ms and
  \<open>2^31 - 1\<close> ms after the call, exactly \<open>ttl\<close> ms after it for a TTL in that range.
  For a larger TTL Node runs the timeout after 1 ms, so the key is deleted at once
  although the recorded \<open>expiresAt\<close> lies \<open>ttl\<close> ms ahead.
\<close>

theorem setTTL_timeout_bounds:
  "let s' = setTTL k n cb s; due = tclock s + timeout_delay n in
     timeouts s' (next_tmid s) = Some (k, n, cb, due) \<and>
     tclock s + 1 \<le> due \<and> due \<le> tclock s + 2147483647 \<and>
     (0 < n \<and> n \<le> 2147483647 \<longrightarrow> due = tclock s + n) \<and>
     (2147483647 < n \<longrightarrow> due = tclock s + 1 \<and>
        ttlStore s' k = Some \<lparr>item_expiresAt = tclock s + n, timeoutId = next_tmid s\<rparr>)"
  by (simp add: Let_def timeout_delay_def)

section \<open>Witnesses\<close>

lemma stale_timeout_deletes_new_item_witness:
  "let s2 = tick 100 (setTTL ''k'' 1000 2 (setTTL ''k'' 100 1 (init_ttl 0)));
       s3 = fire_timeout 0 s2 in
   ttlStore s2 ''k'' \<noteq> None \<and> ttlStore s3 ''k'' = None \<and> onexpire_calls s3 = [1] \<and>
   calls (tbus s3) = [] \<and> timeouts s3 1 = Some (''k'', 1000, 2, 1000)"
  using stale_timeout_deletes_new_item [of 100 100 "''k''" 1000 2 1 "init_ttl 0"]
  by (simp add: Let_def init_ttl_def init_bus_def timeout_delay_def)

lemma clearTTL_cancels_setTTL_witness:
  "timeouts (clearTTL ''k'' (setTTL ''k'' 50 1 (init_ttl 0))) = Map.empty \<and>
   ttlStore (clearTTL ''k'' (setTTL ''k'' 50 1 (init_ttl 0))) = Map.empty"
  using clearTTL_cancels_setTTL [OF ttl_wf_init, of "''k''" 50 1 0] by (simp add: init_ttl_def)

lemma tracked_key_expires_witness:
  "ttlStore (fire_timeout 0 (tick 50 (setTTL ''k'' 50 7 (init_ttl 0)))) ''k'' = None \<and>
   onexpire_calls (fire_timeout 0 (tick 50 (setTTL ''k'' 50 7 (init_ttl 0)))) = [7]"
proof -
  let ?s = "setTTL ''k'' 50 7 (init_ttl 0)"
  have wf: "ttl_wf ?s" by (rule ttl_wf_setTTL [OF ttl_wf_init])
  have it: "ttlStore ?s ''k'' = Some \<lparr>item_expiresAt = 50, timeoutId = 0\<rparr>"
    by (simp add: init_ttl_def)
  from tracked_key_expires [OF wf it] obtain n cb due
    where t: "timeouts ?s 0 = Some (''k'', n, cb, due)"
      and f: "\<forall>d. due \<le> tclock ?s + int d \<longrightarrow>
                ttlStore (fire_timeout 0 (tick d ?s)) ''k'' = None \<and>
                onexpire_calls (fire_timeout 0 (tick d ?s)) = onexpire_calls ?s @ [cb]"
    by auto
  have "cb = 7" "due = 50" using t by (simp_all add: init_ttl_def timeout_delay_def)
  with f show ?thesis by (simp add: init_ttl_def)
qed

lemma setTTL_timeout_bounds_witness:
  "timeouts (setTTL ''k'' 3000000000 1 (init_ttl 0)) 0 = Some (''k'', 3000000000, 1, 1) \<and>
   ttlStore (setTTL ''k'' 3000000000 1 (init_ttl 0)) ''k'' =
     Some \<lparr>item_expiresAt = 3000000000, timeoutId = 0\<rparr>"
  using setTTL_timeout_bounds [of "''k''" 3000000000 1 "init_ttl 0"]
  by (simp add: Let_def init_ttl_def)

end
