(* ===== verification/Store_Loop.thy ===== *)
theory Store_Loop
  imports Store_Invariant
begin

text \<open>
  The event loop run to quiescence. \<open>drain\<close> completes the pending loader calls of
  the Store one at a time, the oldest first, each with the result an environment
  \<open>r\<close> chooses for it, until none is left. It is a \<open>function\<close> whose termination
  is proved with a measure: completing a call removes it and starts no other, so the
  number of pending calls below \<open>next_jid\<close> decreases. This file also holds what
  happens to an entry's \<open>loading\<close> handle once its load has succeeded.
\<close>

section \<open>Draining the pending loader calls\<close>

definition pending_jobs :: "store \<Rightarrow> jid list" where
  "pending_jobs s = filter (\<lambda>j. jobs s j \<noteq> None) [0..<next_jid s]"

lemma run_job_jobs [simp]:
  "jobs (run_job jb x s) = jobs s" "next_jid (run_job jb x s) = next_jid s"
  by (cases jb; cases x; simp)+

lemma complete_jobs:
  "jobs s j \<noteq> None \<Longrightarrow> jobs (complete j x s) = (jobs s)(j := None)"
  "next_jid (complete j x s) = next_jid s"
  by (auto simp: complete_def split: option.split)

text \<open>Removing one element that a filter keeps shortens the filtered list.\<close>

lemma length_filter_remove:
  assumes "j \<in> set xs" "P j" "\<not> Q j" "\<And>i. Q i \<Longrightarrow> P i"
  shows "length (filter Q xs) < length (filter P xs)"
  using assms(1)
proof (induction xs)
  case (Cons x xs)
  have mono: "length (filter Q ys) \<le> length (filter P ys)" for ys
    by (induction ys) (auto dest: assms(4))
  show ?case
  proof (cases "x = j")
    case True
    with assms(2,3) mono [of xs] show ?thesis by simp
  next
    case False
    with Cons have "length (filter Q xs) < length (filter P xs)" by simp
    then show ?thesis using assms(4) by (cases "Q x") auto
  qed
qed simp

lemma pending_jobs_complete:
  assumes "pending_jobs s = j # js"
  shows "length (pending_jobs (complete j x s)) < length (pending_jobs s)"
proof -
  have "j \<in> set (pending_jobs s)" using assms by simp
  then have j: "j \<in> set [0..<next_jid s]" "jobs s j \<noteq> None"
    by (simp_all add: pending_jobs_def)
  then have "length (filter (\<lambda>i. ((jobs s)(j := None)) i \<noteq> None) [0..<next_jid s]) <
             length (filter (\<lambda>i. jobs s i \<noteq> None) [0..<next_jid s])"
    by (intro length_filter_remove) (auto split: if_splits)
  with j(2) show ?thesis by (simp add: pending_jobs_def complete_jobs)
qed

function drain :: "(jid \<Rightarrow> result) \<Rightarrow> store \<Rightarrow> store" where
  "drain r s = (case pending_jobs s of [] \<Rightarrow> s | j # _ \<Rightarrow> drain r (complete j (r j) s))"
  by pat_completeness auto
termination
proof (relation "measure (\<lambda>(r, s). length (pending_jobs s))")
  fix r s j js
  assume "pending_jobs s = j # js"
  then have "length (pending_jobs (complete j (r j) s)) < length (pending_jobs s)"
    by (rule pending_jobs_complete)
  then show "((r, complete j (r j) s), r, s) \<in> measure (\<lambda>(r, s). length (pending_jobs s))"
    by simp
qed simp

declare drain.simps [simp del]

lemma drain_wf: "wf_store s \<Longrightarrow> wf_store (drain r s)"
proof (induction r s rule: drain.induct)
  case (1 r s)
  then show ?case
    by (cases "pending_jobs s") (simp_all add: drain.simps [of r s] wf_complete)
qed

lemma drain_stops: "pending_jobs (drain r s) = []"
proof (induction r s rule: drain.induct)
  case (1 r s)
  then show ?case by (cases "pending_jobs s") (simp_all add: drain.simps [of r s])
qed

lemma no_pending_jobs_empty:
  assumes "fresh_above (jobs s) (next_jid s)" "pending_jobs s = []"
  shows "jobs s = Map.empty"
proof
  fix j
  show "jobs s j = None"
  proof (cases "j < next_jid s")
    case True
    with assms(2) show ?thesis by (auto simp: pending_jobs_def filter_empty_conv)
  next
    case False
    with assms(1) show ?thesis by (simp add: fresh_above_def)
  qed
qed

section \<open>The handle a successful load leaves behind\<close>

lemma addr_ok_clear_loading: "addr_ok s \<Longrightarrow> addr_ok (clear_loading a s)"
  by (cases "heap s a") (auto simp: addr_ok_def clear_loading_def fresh_above_update)

lemma addr_ok_settle: "addr_ok (settle p st s) = addr_ok s"
  by (simp add: addr_ok_def)

section \<open>Properties\<close>

text \<open>
  C37. Termination of the event loop: from any well-formed state, completing the
  pending loader calls one after the other, with any results, stops with no call left,
  and then no promise returned by \<open>get\<close> is still pending.
\<close>

theorem drain_settles_all:
  assumes "wf_store s"
  shows "jobs (drain r s) = Map.empty \<and> (\<forall>p. promises (drain r s) p \<noteq> Some Pending)"
proof -
  have wf: "wf_store (drain r s)" using assms by (rule drain_wf)
  have j: "jobs (drain r s) = Map.empty"
    using wf_partsD(4) [OF wf] drain_stops by (rule no_pending_jobs_empty)
  have "promises (drain r s) p \<noteq> Some Pending" for p
    using wf_partsD(8) [OF wf] j by (auto simp: pending_ok_def)
  with j show ?thesis by simp
qed

text \<open>
  C40. A successful load leaves its promise in the entry: the \<open>.then\<close> continuation
  calls \<open>this.set(key, value)\<close>, which copies the whole entry, \<open>loading\<close> included,
  into a new object, and then clears \<open>loading\<close> only in the old one. Once the value is
  set to \<open>undefined\<close> (or the loader resolved to \<open>undefined\<close>), every \<open>get\<close> returns the
  old fulfilled promise, with the old value, and calls no loader, whichever it is
  given.
\<close>

theorem fulfilled_load_sticks:
  assumes "addr_ok s" "entry_at s k = Some (a, e)" "loading e = Some p"
    and "jobs s j = Some (GetLoad k a p l)"
  shows "let s' = store_set k Undefined None (complete j (Resolves v) s) in
           promises s' p = Some (Fulfilled v) \<and>
           run_gets k los s' = (replicate (length los) (Await p), s')"
proof -
  let ?s0 = "s\<lparr>jobs := (jobs s)(j := None)\<rparr>"
  let ?s2 = "store_set k v None ?s0"
  let ?s1 = "complete j (Resolves v) s"
  let ?s' = "store_set k Undefined None ?s1"
  have ok0: "addr_ok ?s0" using assms(1) by simp
  have a: "a < next_addr s"
    using assms(1,2) addr_ok_fresh by (simp add: entry_at_def split: option.splits)
  have "current ?s0 k = Some e" using assms(2) by (simp add: current_def)
  then have e2: "entry_at ?s2 k = Some (next_addr s, e\<lparr>val := v, expiresAt := None\<rparr>)"
    using current_set_entry [OF ok0, of k v None] by (simp add: set_entry_def spread_def)
  then have d2: "data ?s2 k = Some (next_addr s)"
    by (simp add: entry_at_def split: option.splits)
  have s1: "?s1 = settle p (Fulfilled v) (clear_loading a ?s2)"
    using assms(4) by (rule complete_get_resolves)
  have e1: "entry_at ?s1 k = Some (next_addr s, e\<lparr>val := v, expiresAt := None\<rparr>)"
    using s1 e2 d2 a by (simp add: entry_at_clear_loading_other)
  have ok1: "addr_ok ?s1"
    using s1 ok0 by (simp add: addr_ok_settle addr_ok_clear_loading addr_ok_store_set)
  have "current ?s1 k = Some (e\<lparr>val := v, expiresAt := None\<rparr>)" using e1 by (simp add: current_def)
  then have e': "entry_at ?s' k = Some (next_addr ?s1, e\<lparr>val := Undefined, expiresAt := None\<rparr>)"
    using current_set_entry [OF ok1, of k Undefined None] by (simp add: set_entry_def spread_def)
  have live: "\<not> isExpired ?s' (e\<lparr>val := Undefined, expiresAt := None\<rparr>)"
    by (simp add: isExpired_def)
  have "run_gets k los ?s' = (replicate (length los) (Await p), ?s')"
    using run_gets_joined [OF e' live] assms(3) by simp
  moreover have "promises ?s' p = Some (Fulfilled v)" using s1 by simp
  ultimately show ?thesis by (simp add: Let_def)
qed

section \<open>Witnesses\<close>

lemma drain_settles_all_witness:
  "jobs (drain (\<lambda>j. Resolves (Num 5)) (snd (store_get ''k'' (Some 1) (init_store 0 Map.empty)))) = Map.empty \<and>
   (\<forall>p. promises (drain (\<lambda>j. Resolves (Num 5)) (snd (store_get ''k'' (Some 1) (init_store 0 Map.empty)))) p \<noteq> Some Pending)"
  using drain_settles_all [OF wf_store_get [OF wf_init]] by simp

lemma fulfilled_load_sticks_witness:
  "let s' = store_set ''k'' Undefined None (complete 0 (Resolves (Num 5)) (snd (store_get ''k'' (Some 1) (init_store 0 Map.empty)))) in
     promises s' 0 = Some (Fulfilled (Num 5)) \<and> run_gets ''k'' [None, Some 2] s' = ([Await 0, Await 0], s')"
proof -
  let ?s = "snd (store_get ''k'' (Some 1) (init_store 0 Map.empty))"
  have ok: "addr_ok ?s" by (simp add: store_eval addr_ok_def fresh_above_def)
  have e: "entry_at ?s ''k'' = Some (0, empty_entry\<lparr>loading := Some 0\<rparr>)" by (simp add: store_eval)
  have j: "jobs ?s 0 = Some (GetLoad ''k'' 0 0 1)" by (simp add: store_eval)
  show ?thesis using fulfilled_load_sticks [OF ok e _ j, of "Num 5" "[None, Some 2]"] by simp
qed

end
