(* ===== verification/Store_Typing.thy ===== *)
theory Store_Typing
  imports Store_Spec
begin

text \<open>
  The type parameters of \<open>Store\<close>: \<open>get<T>\<close> returns \<open>entry.value as T\<close>, \<open>set<T>\<close>
  takes a \<open>T\<close> and \<open>query<T>\<close> returns \<open>T[]\<close>, and none of them checks anything at run
  time. A typing \<open>\<Gamma>\<close> gives each key the type its callers use; the Store is sound for
  it when every value written by \<open>set\<close> and every value a loader delivers for a key
  has the key's type. Then every value the Store holds, every value \<open>get\<close> answers with
  and every element \<open>query\<close> returns has the type the caller expects. The proof goes
  through the abstract cache of \<open>Store_Spec\<close>: typing is a property of the abstract
  state, and the simulation lemma carries it across every detailed step.
\<close>

section \<open>Types of JavaScript values\<close>




section \<open>Well-typed states and runs\<close>




section \<open>Preservation\<close>






section \<open>Properties\<close>


section \<open>Witnesses\<close>


end
