(* ===== verification/Spec2Isabelle.thy ===== *)
theory Spec2Isabelle
  imports Derived Ttl Store_Loop Store_Typing
begin

text \<open>
  Verification development for \<open>minimarket\<close>, an in-memory key/value cache written
  in TypeScript (\<open>src/src/\<close>).

  \<^bold>\<open>The program.\<close> \<open>Store.ts\<close> holds the cache: class \<open>Store\<close> (an \<open>EventEmitter\<close>)
  keeps a \<open>Map\<close> from keys to entry objects \<open>{value, loader, expiresAt, loading,
  refreshInterval}\<close> and offers \<open>get\<close> (purge on expiry, cached value, join of an
  in-flight load, or a new load through the given or the registered loader), \<open>set\<close>
  (with an optional TTL), \<open>setLoader\<close>, \<open>setAutoRefresh\<close> (an interval timer that
  reloads the key), \<open>query\<close> and \<open>delete\<close>; it emits \<open>update\<close>, \<open>update:key\<close> and
  \<open>delete\<close>. \<open>events.ts\<close> is a separate listener registry (\<open>on\<close>, \<open>emit\<close>, \<open>off\<close>);
  \<open>ttl.ts\<close> keeps a second TTL table of timeouts that delete a key, call a callback and
  emit \<open>expire\<close> on that registry; \<open>derived.ts\<close> computes a key from others through
  the Store's \<open>get\<close> and \<open>set\<close>; \<open>types.ts\<close> declares the shared types.

  \<^bold>\<open>Theories and what they model.\<close>
  \<^item> \<open>Prelude\<close>: the names of the model's types (keys, times, addresses, handles)
    and the \<open>fresh_above\<close> facts on maps indexed by a counter.
  \<^item> \<open>Js_Values\<close>: JavaScript values (\<open>jsval\<close>, with \<open>undefined\<close> distinct from
    every other value), \<open>Array.isArray\<close>, and the truthiness of an optional number.
  \<^item> \<open>Store_State\<close>: the state (record \<open>store\<close>) and the synchronous operations.
    Entry objects live on a heap (\<open>data\<close>: key to address, \<open>heap\<close>: address to
    \<open>entry\<close>), because \<open>set\<close> and \<open>setLoader\<close> replace an entry by a spread copy while
    a load's continuation writes into the object it captured. Promises, interval timers,
    pending loader calls, the clock, the emitted events and unhandled rejections are
    fields of the state, and so is the environment's table \<open>loader_throws\<close> of the
    loaders that throw synchronously when called (given to \<open>init_store\<close>, never
    changed). \<open>store_set\<close>, \<open>store_delete\<close>, \<open>store_query\<close>, \<open>isExpired\<close>
    translate \<open>set\<close>, \<open>delete\<close>, \<open>query\<close>, \<open>isExpired\<close>.
  \<^item> \<open>Store_Ops\<close>: \<open>store_get\<close> and \<open>start_load\<close> (\<open>get\<close>, lines 17--53), the
    continuations of a load (\<open>run_job\<close>, \<open>complete\<close>), \<open>setLoader\<close>,
    \<open>setAutoRefresh\<close>, \<open>refresh\<close>, timer ticks (\<open>fire\<close>) and time (\<open>advance\<close>), and
    the event loop: a datatype \<open>op\<close> of every step, \<open>step\<close>, \<open>run\<close>, and the
    inductive set of \<open>reachable\<close> states. A loader call is a pending job that an
    explicit \<open>Complete\<close> step settles with a value or an error, so every interleaving
    of calls and settlements is a list of steps.
  \<^item> \<open>Store_Get\<close>, \<open>Store_Expiry\<close>, \<open>Store_Refresh\<close>: the behaviour of \<open>get\<close>
    (de-duplication, cache hits, loader precedence, the missing-loader error, a loader
    that throws synchronously), of
    TTLs (the strict comparison of \<open>isExpired\<close>, TTL \<open>0\<close>, purge on read, \<open>query\<close>
    ignoring expiry) and of loaders and refresh timers (the leaked timer, the rejected
    load that sticks, the load that resurrects a deleted key).
  \<^item> \<open>Store_Invariant\<close>: the invariant \<open>wf_store\<close> (addresses allocated, keys
    unaliased, counters fresh, handles live, pending promises exactly those of in-flight
    loads) and its preservation by every step, by rule induction on \<open>reachable\<close>.
  \<^item> \<open>Store_Spec\<close>: an abstract cache (clock and a map from keys to a value and a
    deadline) with its own steps, and the refinement: the abstraction of every detailed
    step is the abstract step of its abstraction, so every run of the Store is a run of
    the abstract cache and \<open>get\<close> answers with a value exactly when the abstract read does.
  \<^item> \<open>Store_Typing\<close>: the TypeScript types callers put for \<open>T\<close> (\<open>jstype\<close>,
    \<open>has_type\<close>) and the soundness of the unchecked casts of \<open>get<T>\<close> and
    \<open>query<T>\<close>: if every write and every loaded value has the key's type, so does
    everything the Store hands back. It is proved on the abstract cache and carried to
    the detailed model by the simulation lemma.
  \<^item> \<open>Store_Loop\<close>: \<open>drain\<close>, the event loop run until no loader call is pending,
    a \<open>function\<close> whose termination is proved by a measure (the number of pending
    calls), and what a successful load leaves in \<open>loading\<close>.
  \<^item> \<open>Events\<close>: \<open>events.ts\<close>, the registry as a record of handler lists, handlers as
    identities and their calls as a log.
  \<^item> \<open>Ttl\<close>: \<open>ttl.ts\<close>, with Node's timer table (due times, and the clamp of a delay to
    \<open>[1, 2^31 - 1]\<close> ms) in the state; a firing timeout emits on the \<open>Events\<close> bus.
  \<^item> \<open>Derived\<close>: \<open>derived.ts\<close> over the Store model: the gets of the dependencies,
    the suspended \<open>recompute\<close>, \<open>Promise.all\<close> (and its equivalence with a reference
    description), and the final \<open>set\<close> or unhandled rejection.

  \<^bold>\<open>What the lemmas show.\<close> The claims C1--C40 are listed with the theorems that
  prove them: the functional behaviour of every operation on each branch, errors
  included; the invariants of the Store and of the TTL table; type soundness of the
  generic methods; the refinement of the
  abstract cache; termination of the drained event loop; round trips of the registry;
  the bounds of the TTL timeouts; and a number of defects of the code, proved as
  theorems about reachable behaviour: the boundary of expiry, the leaked refresh timer,
  the rejected or fulfilled promise that sticks in an entry, the deleted key a late load
  brings back, the TTL timeout \<open>setTTL\<close> never cancels, and the derived key that never
  recomputes.

  \<^bold>\<open>Bounds and fuel.\<close> No fuel is needed: every operation of the program is a total
  function of the state (the code has no unbounded loop; \<open>forEach\<close>, \<open>filter\<close> and
  \<open>map\<close> are structural recursion). What may run forever in the program is the event
  loop (interval timers keep firing); it is modelled by lists of steps of any length,
  and the one loop the model runs by itself, \<open>drain\<close>, is proved to stop. Numbers are
  mathematical integers: the code adds milliseconds to \<open>Date.now()\<close> in doubles, which
  are exact far beyond any reachable time; the only bounded quantity is Node's timer
  delay, modelled with its clamp.

  \<^bold>\<open>Not modelled.\<close> The \<open>MarketStore\<close> interface of \<open>types.ts\<close> has no
  implementation in the repository (the Store's methods do not match it), so only the
  types \<open>ttl.ts\<close> and \<open>events.ts\<close> use are modelled. \<open>index.ts\<close>, from which
  \<open>derived.ts\<close> imports the Store instance, is not in the repository. Listeners of the
  Store's \<open>EventEmitter\<close> are not run: the emitted events are recorded in order.
  Handlers, loaders, \<open>onExpire\<close> and \<open>compute\<close> are opaque: a loader's result is
  chosen by the \<open>Complete\<close> step, and whether it throws synchronously is fixed per
  loader by \<open>loader_throws\<close> (a loader that throws on some calls only is not
  modelled); a handler that throws or re-enters the registry is not modelled. \<open>NaN\<close> and fractional numbers are not modelled. Node's
  order of timers that are due together is not fixed: any due timer may fire.
\<close>

end
